theory Spec2Isabelle
  imports Complex_Main "HOL-Library.AList" "HOL-Library.Stream"
begin

section \<open>Survivor's Echo: the simulation core of src/main.py\<close>

text \<open>
  A shallow embedding of the simulation model of \<^verbatim>\<open>src/main.py\<close>: the tile world, the
  inventory, crafting, the creature state machine, the player's vital statistics and the
  snapshot written by \<^verbatim>\<open>save\<close> and read by \<^verbatim>\<open>load\<close>.

  Conventions of the embedding.
  \<^item> Python \<^verbatim>\<open>int\<close> is \<^typ>\<open>int\<close>; Python \<^verbatim>\<open>float\<close> is idealised as \<^typ>\<open>real\<close>
    (no rounding, no infinities).
  \<^item> \<^verbatim>\<open>str\<close> is \<^typ>\<open>string\<close>; \<^verbatim>\<open>Optional[str]\<close> is \<^typ>\<open>string option\<close>.
  \<^item> A \<^verbatim>\<open>dict\<close> is an association list in insertion order, as Python keeps it.
  \<^item> Objects mutated in place are passed in and returned updated.
  \<^item> An exception is the \<open>Inl\<close> branch of a sum.
  \<^item> \<^verbatim>\<open>random.random()\<close> reads the head of an injected stream of draws.
  \<^item> Field names carry a prefix where the bare name would capture a variable
    (\<open>world_w\<close> for \<^verbatim>\<open>World.w\<close>, \<open>player_x\<close> for \<^verbatim>\<open>Player.x\<close>, \<open>ent_x\<close> for \<^verbatim>\<open>Entity.x\<close>,
    \<open>item_id\<close> for \<^verbatim>\<open>Item.id\<close>).
\<close>

subsection \<open>Configuration and constants\<close>

definition TILE_SIZE :: int where "TILE_SIZE = 32"
definition WORLD_WIDTH :: int where "WORLD_WIDTH = 80"
definition WORLD_HEIGHT :: int where "WORLD_HEIGHT = 60"

definition MAX_HEALTH :: real where "MAX_HEALTH = 100"
definition MAX_HUNGER :: real where "MAX_HUNGER = 100"
definition MAX_THIRST :: real where "MAX_THIRST = 100"
definition MAX_STAMINA :: real where "MAX_STAMINA = 100"
definition DAY_LENGTH :: real where "DAY_LENGTH = 300"

definition TILE_GRASS :: string where "TILE_GRASS = ''grass''"
definition TILE_WATER :: string where "TILE_WATER = ''water''"
definition TILE_FOREST :: string where "TILE_FOREST = ''forest''"
definition TILE_ROCK :: string where "TILE_ROCK = ''rock''"
definition TILE_SAND :: string where "TILE_SAND = ''sand''"

definition RESOURCE_TREE :: string where "RESOURCE_TREE = ''tree''"
definition RESOURCE_STONE :: string where "RESOURCE_STONE = ''stone''"
definition RESOURCE_BUSH :: string where "RESOURCE_BUSH = ''bush''"

text \<open>\<^verbatim>\<open>clamp(n, a, b) = max(a, min(b, n))\<close>\<close>

definition clamp :: "real \<Rightarrow> real \<Rightarrow> real \<Rightarrow> real" where
  "clamp n a b = max a (min b n)"

text \<open>
  Python's truth value of an \<^verbatim>\<open>Optional[str]\<close>: \<^verbatim>\<open>None\<close> and the empty string are false.
\<close>

definition truthy :: "string option \<Rightarrow> bool" where
  "truthy v = (case v of None \<Rightarrow> False | Some s \<Rightarrow> s \<noteq> [])"

subsection \<open>World and tiles\<close>

record tile =
  kind :: string
  resource :: "string option"
  resource_amount :: int
  built :: "string option"

text \<open>\<^verbatim>\<open>Tile()\<close> with the dataclass defaults.\<close>

definition Tile0 :: tile where
  "Tile0 = \<lparr>kind = TILE_GRASS, resource = None, resource_amount = 0, built = None\<rparr>"

text \<open>\<^verbatim>\<open>World.tiles[x][y]\<close>: a list of \<open>w\<close> columns, each of \<open>h\<close> tiles.\<close>

record world =
  world_w :: int
  world_h :: int
  tiles :: "tile list list"

text \<open>
  Every \<^verbatim>\<open>World\<close> the program builds (\<^verbatim>\<open>__init__\<close>, \<^verbatim>\<open>from_dict\<close>) has exactly \<open>w\<close> columns
  of \<open>h\<close> tiles, and no method changes the shape of the grid.
\<close>

definition world_ok :: "world \<Rightarrow> bool" where
  "world_ok wd =
     (int (length (tiles wd)) = max 0 (world_w wd) \<and>
      list_all (\<lambda>col. int (length col) = max 0 (world_h wd)) (tiles wd))"

definition in_bounds :: "world \<Rightarrow> int \<Rightarrow> int \<Rightarrow> bool" where
  "in_bounds wd tx ty = (0 \<le> tx \<and> tx < world_w wd \<and> 0 \<le> ty \<and> ty < world_h wd)"

definition get_tile :: "world \<Rightarrow> int \<Rightarrow> int \<Rightarrow> tile option" where
  "get_tile wd tx ty =
     (if \<not> in_bounds wd tx ty then None
      else Some (tiles wd ! nat tx ! nat ty))"

text \<open>
  The methods mutate the \<^verbatim>\<open>Tile\<close> object that \<^verbatim>\<open>get_tile\<close> returned; each cell of the grid
  holds an object of its own, so the mutation is a write to that one cell.
\<close>

definition set_tile :: "world \<Rightarrow> int \<Rightarrow> int \<Rightarrow> tile \<Rightarrow> world" where
  "set_tile wd tx ty t =
     wd\<lparr>tiles := (tiles wd)[nat tx := (tiles wd ! nat tx)[nat ty := t]]\<rparr>"

definition deplete :: "tile \<Rightarrow> tile" where
  "deplete t =
     (if resource_amount t \<le> 0 then
        (let t1 = t\<lparr>resource := None\<rparr>;
             t2 = (if kind t1 = TILE_FOREST then t1\<lparr>kind := TILE_GRASS\<rparr> else t1);
             t3 = (if kind t2 = TILE_ROCK then t2\<lparr>kind := TILE_GRASS\<rparr> else t2)
         in t3)
      else t)"

text \<open>\<^verbatim>\<open>World.harvest\<close>: the amount taken and the world afterwards.\<close>

definition harvest :: "world \<Rightarrow> int \<Rightarrow> int \<Rightarrow> int \<Rightarrow> int \<times> world" where
  "harvest wd tx ty amt =
     (case get_tile wd tx ty of
        None \<Rightarrow> (0, wd)
      | Some t \<Rightarrow>
          if \<not> truthy (resource t) then (0, wd)
          else
            (let taken = min amt (resource_amount t);
                 t1 = t\<lparr>resource_amount := resource_amount t - taken\<rparr>
             in (taken, set_tile wd tx ty (deplete t1))))"

text \<open>\<^verbatim>\<open>World.place_structure\<close> and \<^verbatim>\<open>World.remove_structure\<close>.\<close>

definition place_structure :: "world \<Rightarrow> int \<Rightarrow> int \<Rightarrow> string \<Rightarrow> bool \<times> world" where
  "place_structure wd tx ty structure_name =
     (case get_tile wd tx ty of
        None \<Rightarrow> (False, wd)
      | Some t \<Rightarrow>
          if truthy (built t) then (False, wd)
          else (True, set_tile wd tx ty (t\<lparr>built := Some structure_name\<rparr>)))"

definition remove_structure :: "world \<Rightarrow> int \<Rightarrow> int \<Rightarrow> bool \<times> world" where
  "remove_structure wd tx ty =
     (case get_tile wd tx ty of
        None \<Rightarrow> (False, wd)
      | Some t \<Rightarrow>
          if \<not> truthy (built t) then (False, wd)
          else (True, set_tile wd tx ty (t\<lparr>built := None\<rparr>)))"

subsection \<open>Inventory\<close>

record item =
  item_id :: string
  name :: string
  amount :: int

text \<open>
  \<^verbatim>\<open>Inventory.items\<close> is a \<^verbatim>\<open>Dict[str, Item]\<close>: an association list in insertion order.
  Assigning to a key that is present keeps its place, a new key goes to the end
  (\<^const>\<open>AList.update\<close>), and \<^verbatim>\<open>del\<close> removes the entry (\<^const>\<open>AList.delete\<close>).
\<close>

record inventory =
  items :: "(string \<times> item) list"
  capacity :: int

definition Inventory0 :: inventory where
  "Inventory0 = \<lparr>items = [], capacity = 30\<rparr>"

definition add :: "inventory \<Rightarrow> string \<Rightarrow> string \<Rightarrow> int \<Rightarrow> bool \<times> inventory" where
  "add iv iid nm amt =
     (case map_of (items iv) iid of
        Some it \<Rightarrow>
          (True, iv\<lparr>items := AList.update iid (it\<lparr>amount := amount it + amt\<rparr>) (items iv)\<rparr>)
      | None \<Rightarrow>
          if int (length (items iv)) \<ge> capacity iv then (False, iv)
          else (True, iv\<lparr>items :=
                  AList.update iid \<lparr>item_id = iid, name = nm, amount = amt\<rparr> (items iv)\<rparr>))"

definition remove :: "inventory \<Rightarrow> string \<Rightarrow> int \<Rightarrow> bool \<times> inventory" where
  "remove iv iid amt =
     (case map_of (items iv) iid of
        None \<Rightarrow> (False, iv)
      | Some it \<Rightarrow>
          if amount it < amt then (False, iv)
          else
            (let it' = it\<lparr>amount := amount it - amt\<rparr>
             in if amount it' = 0
                then (True, iv\<lparr>items := AList.delete iid (items iv)\<rparr>)
                else (True, iv\<lparr>items := AList.update iid it' (items iv)\<rparr>)))"

definition has :: "inventory \<Rightarrow> string \<Rightarrow> int \<Rightarrow> bool" where
  "has iv iid amt =
     (case map_of (items iv) iid of None \<Rightarrow> False | Some it \<Rightarrow> amount it \<ge> amt)"

text \<open>The stock of an id: the amount of its stack, 0 when the id has no stack.\<close>

definition stock :: "inventory \<Rightarrow> string \<Rightarrow> int" where
  "stock iv iid = (case map_of (items iv) iid of None \<Rightarrow> 0 | Some it \<Rightarrow> amount it)"

text \<open>A sequence of \<^verbatim>\<open>add\<close> and \<^verbatim>\<open>remove\<close> calls, and the trace of what each returned.\<close>

datatype inv_call = Add string string int | Remove string int

fun call :: "inventory \<Rightarrow> inv_call \<Rightarrow> bool \<times> inventory" where
  "call iv (Add iid nm amt) = add iv iid nm amt"
| "call iv (Remove iid amt) = remove iv iid amt"

fun run_calls :: "inventory \<Rightarrow> inv_call list \<Rightarrow> (inv_call \<times> bool) list \<times> inventory" where
  "run_calls iv [] = ([], iv)"
| "run_calls iv (c # cs) =
     (let (ok, iv1) = call iv c;
          (tr, iv2) = run_calls iv1 cs
      in ((c, ok) # tr, iv2))"

text \<open>What the successful calls of a trace added to, and removed from, one id.\<close>

fun added :: "string \<Rightarrow> (inv_call \<times> bool) list \<Rightarrow> int" where
  "added iid [] = 0"
| "added iid ((Add k nm amt, ok) # tr) = (if ok \<and> k = iid then amt else 0) + added iid tr"
| "added iid ((Remove k amt, ok) # tr) = added iid tr"

fun removed :: "string \<Rightarrow> (inv_call \<times> bool) list \<Rightarrow> int" where
  "removed iid [] = 0"
| "removed iid ((Remove k amt, ok) # tr) = (if ok \<and> k = iid then amt else 0) + removed iid tr"
| "removed iid ((Add k nm amt, ok) # tr) = removed iid tr"

subsection \<open>Player\<close>

record player =
  player_x :: real
  player_y :: real
  angle :: real
  health :: real
  hunger :: real
  thirst :: real
  stamina :: real
  inventory :: inventory
  equipped :: "string option"
  attack_power :: real

text \<open>\<^verbatim>\<open>Player(x=.., y=..)\<close> with the dataclass defaults.\<close>

definition Player0 :: "real \<Rightarrow> real \<Rightarrow> player" where
  "Player0 px py =
     \<lparr>player_x = px, player_y = py, angle = 0, health = MAX_HEALTH, hunger = 0, thirst = 0,
      stamina = MAX_STAMINA, inventory = Inventory0, equipped = None, attack_power = 10\<rparr>"

text \<open>
  The tile under the player: \<^verbatim>\<open>int(self.player.x // TILE_SIZE)\<close>, floor division followed
  by a conversion that has nothing left to truncate.
\<close>

definition player_tile :: "player \<Rightarrow> int \<times> int" where
  "player_tile p =
     (\<lfloor>player_x p / real_of_int TILE_SIZE\<rfloor>, \<lfloor>player_y p / real_of_int TILE_SIZE\<rfloor>)"

subsection \<open>Entities\<close>

text \<open>
  The exceptions the modelled code can raise. \<open>NotRepresentable\<close> is not a Python exception:
  it marks a snapshot value of a type that the field it is loaded into is not annotated
  with (Python stores such a value unchecked), which the typed records cannot hold.
\<close>

datatype error =
    ZeroDivisionError
  | KeyError
  | IndexError
  | TypeError
  | AttributeError
  | FileNotFoundError
  | JSONDecodeError
  | NotRepresentable

text \<open>
  \<^verbatim>\<open>Entity.target\<close> is set to \<^verbatim>\<open>None\<close> by the constructor and never read or written again;
  the record leaves it out.
\<close>

record entity =
  ent_x :: real
  ent_y :: real
  ent_vx :: real
  ent_vy :: real
  ent_health :: real
  ent_speed :: real
  ent_state :: string
  ent_radius :: real

definition Entity0 :: "real \<Rightarrow> real \<Rightarrow> entity" where
  "Entity0 ex ey =
     \<lparr>ent_x = ex, ent_y = ey, ent_vx = 0, ent_vy = 0, ent_health = 50, ent_speed = 40,
      ent_state = ''idle'', ent_radius = 10\<rparr>"

text \<open>\<^verbatim>\<open>math.hypot\<close>, \<^verbatim>\<open>math.atan2\<close> and \<^verbatim>\<open>math.tau\<close> of the standard library.\<close>

definition hypot :: "real \<Rightarrow> real \<Rightarrow> real" where
  "hypot a b = sqrt (a\<^sup>2 + b\<^sup>2)"

definition atan2 :: "real \<Rightarrow> real \<Rightarrow> real" where
  "atan2 b a =
     (if a > 0 then arctan (b / a)
      else if a < 0 \<and> b \<ge> 0 then arctan (b / a) + pi
      else if a < 0 then arctan (b / a) - pi
      else if b > 0 then pi / 2
      else if b < 0 then - pi / 2
      else 0)"

definition tau :: real where "tau = 2 * pi"

type_synonym rng = "real stream"

text \<open>
  The roaming rules of \<^verbatim>\<open>Entity.update\<close>: the \<^verbatim>\<open>if self.state == 'idle' ... elif ... 'roam'\<close>
  block. Each \<^verbatim>\<open>random.random()\<close> takes the next draw.
\<close>

definition roam_step :: "entity \<Rightarrow> rng \<Rightarrow> entity \<times> rng" where
  "roam_step e r =
     (if ent_state e = ''idle'' then
        (if shd r < 0.01 then
           (let ang = shd (stl r) * tau
            in (e\<lparr>ent_state := ''roam'',
                   ent_vx := cos ang * ent_speed e,
                   ent_vy := sin ang * ent_speed e\<rparr>, stl (stl r)))
         else (e, stl r))
      else if ent_state e = ''roam'' then
        (if shd r < 0.005 then (e\<lparr>ent_state := ''idle'', ent_vx := 0, ent_vy := 0\<rparr>, stl r)
         else (e, stl r))
      else (e, r))"

text \<open>
  The proximity rule: \<^verbatim>\<open>dx / dist\<close> is a float division, which raises
  \<^verbatim>\<open>ZeroDivisionError\<close> when \<^verbatim>\<open>dist\<close> is zero.
\<close>

definition pursue_step :: "player \<Rightarrow> entity \<Rightarrow> error + entity" where
  "pursue_step p e =
     (let dx = player_x p - ent_x e;
          dy = player_y p - ent_y e;
          dist = hypot dx dy
      in if dist < 150 then
           (if dist = 0 then Inl ZeroDivisionError
            else Inr (e\<lparr>ent_state := ''attack'',
                         ent_vx := (dx / dist) * (ent_speed e * 1.2),
                         ent_vy := (dy / dist) * (ent_speed e * 1.2)\<rparr>))
         else Inr e)"

text \<open>
  The flee rule: \<^verbatim>\<open>self.health < 20 and random.random() < 0.3\<close> draws only when the health
  test has passed.
\<close>

definition flee_fires :: "entity \<Rightarrow> rng \<Rightarrow> bool" where
  "flee_fires e r = (ent_health e < 20 \<and> shd r < 0.3)"

definition flee_step :: "player \<Rightarrow> entity \<Rightarrow> rng \<Rightarrow> entity \<times> rng" where
  "flee_step p e r =
     (if ent_health e < 20 then
        (if shd r < 0.3 then
           (let ang = atan2 (ent_y e - player_y p) (ent_x e - player_x p)
            in (e\<lparr>ent_state := ''flee'',
                   ent_vx := cos ang * ent_speed e * 1.5,
                   ent_vy := sin ang * ent_speed e * 1.5\<rparr>, stl r))
         else (e, stl r))
      else (e, r))"

definition integrate :: "real \<Rightarrow> entity \<Rightarrow> entity" where
  "integrate dt e = e\<lparr>ent_x := ent_x e + ent_vx e * dt, ent_y := ent_y e + ent_vy e * dt\<rparr>"

text \<open>
  The state-machine evaluation of one tick (everything of \<^verbatim>\<open>Entity.update\<close> before the
  integration), and \<^verbatim>\<open>Entity.update\<close> itself.
\<close>

definition evaluate :: "player \<Rightarrow> entity \<Rightarrow> rng \<Rightarrow> error + (entity \<times> rng)" where
  "evaluate p e r =
     (let (e1, r1) = roam_step e r
      in case pursue_step p e1 of
           Inl err \<Rightarrow> Inl err
         | Inr e2 \<Rightarrow> Inr (flee_step p e2 r1))"

definition entity_update :: "real \<Rightarrow> world \<Rightarrow> player \<Rightarrow> entity \<Rightarrow> rng \<Rightarrow> error + (entity \<times> rng)" where
  "entity_update dt wd p e r =
     (case evaluate p e r of
        Inl err \<Rightarrow> Inl err
      | Inr (e3, r3) \<Rightarrow> Inr (integrate dt e3, r3))"

subsection \<open>Crafting recipes\<close>

record recipe =
  requires :: "(string \<times> int) list"
  recipe_name :: string

definition RECIPES :: "(string \<times> recipe) list" where
  "RECIPES =
     [(''wooden_spear'', \<lparr>requires = [(''wood'', 3), (''stone'', 1)], recipe_name = ''Wooden Spear''\<rparr>),
      (''campfire'', \<lparr>requires = [(''wood'', 5)], recipe_name = ''Campfire''\<rparr>),
      (''stone_axe'', \<lparr>requires = [(''wood'', 2), (''stone'', 3)], recipe_name = ''Stone Axe''\<rparr>),
      (''wooden_shack'', \<lparr>requires = [(''wood'', 20)], recipe_name = ''Wooden Shack''\<rparr>)]"

text \<open>
  \<^verbatim>\<open>str.capitalize\<close> on ASCII text: the first character in upper case, the others in
  lower case.
\<close>

definition upper_char :: "char \<Rightarrow> char" where
  "upper_char c =
     (let n = (of_char c :: nat) in if 97 \<le> n \<and> n \<le> 122 then char_of (n - 32) else c)"

definition lower_char :: "char \<Rightarrow> char" where
  "lower_char c =
     (let n = (of_char c :: nat) in if 65 \<le> n \<and> n \<le> 90 then char_of (n + 32) else c)"

definition capitalize :: "string \<Rightarrow> string" where
  "capitalize s = (case s of [] \<Rightarrow> [] | c # cs \<Rightarrow> upper_char c # map lower_char cs)"

subsection \<open>The game\<close>

text \<open>
  The fields of \<^verbatim>\<open>Game\<close> that the simulation reads or writes; the display, the clock, the
  fonts and the build-mode flags of the input layer are left out. \<open>rng\<close> is the state of
  the \<^verbatim>\<open>random\<close> module.
\<close>

record game =
  world :: world
  player :: player
  camera_x :: real
  camera_y :: real
  entities :: "entity list"
  paused :: bool
  time_of_day :: real
  weather :: "string option"
  rng :: rng

text \<open>The keys \<^verbatim>\<open>update_player\<close> reads from \<^verbatim>\<open>pygame.key.get_pressed()\<close>.\<close>

record keys =
  K_LSHIFT :: bool
  K_w :: bool
  K_s :: bool
  K_a :: bool
  K_d :: bool

definition no_keys :: keys where
  "no_keys = \<lparr>K_LSHIFT = False, K_w = False, K_s = False, K_a = False, K_d = False\<rparr>"

text \<open>\<^verbatim>\<open>Game.try_interact\<close>: \<^verbatim>\<open>tile\<close> is the object in the grid, so the tests after
  \<^verbatim>\<open>self.world.harvest\<close> read the tile as the harvest left it.\<close>

definition try_interact :: "game \<Rightarrow> game" where
  "try_interact g =
     (let (tx, ty) = player_tile (player g)
      in case get_tile (world g) tx ty of
           None \<Rightarrow> g
         | Some t \<Rightarrow>
             if truthy (resource t) then
               (let (taken, wd1) = harvest (world g) tx ty 1;
                    t1 = (case get_tile wd1 tx ty of Some u \<Rightarrow> u | None \<Rightarrow> t);
                    g1 = g\<lparr>world := wd1\<rparr>;
                    iv = inventory (player g1)
                in if taken > 0 then
                     (if resource t1 = Some RESOURCE_TREE then
                        g1\<lparr>player := (player g1)\<lparr>inventory := snd (add iv ''wood'' ''Wood'' taken)\<rparr>\<rparr>
                      else if resource t1 = Some RESOURCE_STONE then
                        g1\<lparr>player := (player g1)\<lparr>inventory := snd (add iv ''stone'' ''Stone'' taken)\<rparr>\<rparr>
                      else if resource t1 = Some RESOURCE_BUSH then
                        g1\<lparr>player := (player g1)\<lparr>inventory := snd (add iv ''berries'' ''Berries'' taken)\<rparr>\<rparr>
                      else g1)
                   else g1)
             else if truthy (built t) then
               (if built t = Some ''campfire'' then
                  g\<lparr>player := (player g)
                      \<lparr>stamina := min MAX_STAMINA (stamina (player g) + 20),
                       health := min MAX_HEALTH (health (player g) + 5)\<rparr>\<rparr>
                else g)
             else g)"

text \<open>\<^verbatim>\<open>Game.update_player\<close>.\<close>

definition update_player :: "real \<Rightarrow> keys \<Rightarrow> world \<Rightarrow> player \<Rightarrow> player" where
  "update_player dt ks wd p =
     (let sprint = (K_LSHIFT ks \<and> stamina p > 1);
          speed = (if sprint then 160 * 1.8 else 160);
          p1 = (if sprint then p\<lparr>stamina := stamina p - dt * 10\<rparr> else p);
          vy = (0 - (if K_w ks then 1 else 0)) + (if K_s ks then 1 else 0);
          vx = (0 - (if K_a ks then 1 else 0)) + (if K_d ks then 1 else 0);
          norm = hypot vx vy;
          p2 = (if norm > 0 then
                  p1\<lparr>player_x := player_x p1 + (vx / norm) * speed * dt,
                     player_y := player_y p1 + (vy / norm) * speed * dt,
                     stamina := max 0 (stamina p1 - dt * 7)\<rparr>
                else p1)
      in p2\<lparr>player_x := clamp (player_x p2) 0 (real_of_int (world_w wd * TILE_SIZE - 1)),
            player_y := clamp (player_y p2) 0 (real_of_int (world_h wd * TILE_SIZE - 1))\<rparr>)"

text \<open>
  The loop over the entities in \<^verbatim>\<open>Game.update\<close>: each entity is updated, and one that ends
  up closer than 20 units to the player damages the player.
\<close>

fun update_entities ::
  "real \<Rightarrow> world \<Rightarrow> entity list \<Rightarrow> player \<Rightarrow> bool \<Rightarrow> rng \<Rightarrow> error + (entity list \<times> player \<times> bool \<times> rng)" where
  "update_entities dt wd [] p ps r = Inr ([], p, ps, r)"
| "update_entities dt wd (e # es) p ps r =
     (case entity_update dt wd p e r of
        Inl err \<Rightarrow> Inl err
      | Inr (e1, r1) \<Rightarrow>
          (let dist = hypot (ent_x e1 - player_x p) (ent_y e1 - player_y p);
               p1 = (if dist < 20 then p\<lparr>health := health p - 5 * dt\<rparr> else p);
               ps1 = (if dist < 20 \<and> health p1 \<le> 0 then True else ps)
           in case update_entities dt wd es p1 ps1 r1 of
                Inl err \<Rightarrow> Inl err
              | Inr (es1, p2, ps2, r2) \<Rightarrow> Inr (e1 # es1, p2, ps2, r2)))"

text \<open>Python's \<^verbatim>\<open>%\<close> on floats: the result has the sign of the divisor.\<close>

definition fmod :: "real \<Rightarrow> real \<Rightarrow> real" where
  "fmod a b = a - b * real_of_int \<lfloor>a / b\<rfloor>"

text \<open>
  \<^verbatim>\<open>Game.update\<close>: one tick of the simulation. \<open>weather_step\<close> is the weather roll at its top,
  \<open>decay\<close> the block from \<^verbatim>\<open># hunger/thirst\<close> to the stamina regeneration.
\<close>

definition weather_step :: "string option \<Rightarrow> rng \<Rightarrow> string option \<times> rng" where
  "weather_step wt r =
     (if shd r < 0.001
      then ((if shd (stl r) < 0.3 then Some ''rain'' else None), stl (stl r))
      else (wt, stl r))"

definition decay :: "real \<Rightarrow> player \<Rightarrow> player" where
  "decay dt p2 =
     (let p3 = p2\<lparr>hunger := hunger p2 + dt * 0.5\<rparr>;
          p4 = p3\<lparr>thirst := thirst p3 + dt * 0.9\<rparr>;
          p5 = (if hunger p4 > 80 then p4\<lparr>health := health p4 - dt * 0.5\<rparr> else p4);
          p6 = (if thirst p5 > 90 then p5\<lparr>health := health p5 - dt * 1.0\<rparr> else p5);
          p7 = (if stamina p6 < MAX_STAMINA
                then p6\<lparr>stamina := min MAX_STAMINA (stamina p6 + dt * 5)\<rparr> else p6)
      in p7)"

definition update :: "real \<Rightarrow> keys \<Rightarrow> game \<Rightarrow> error + game" where
  "update dt ks g =
     (let tod = fmod (time_of_day g + dt) DAY_LENGTH;
          (wt, r1) = weather_step (weather g) (rng g);
          p1 = update_player dt ks (world g) (player g)
      in case update_entities dt (world g) (entities g) p1 (paused g) r1 of
           Inl err \<Rightarrow> Inl err
         | Inr (es, p2, ps, r2) \<Rightarrow>
             (let p7 = decay dt p2
              in Inr (g\<lparr>time_of_day := tod, weather := wt, player := p7, entities := es,
                        paused := ps, rng := r2,
                        camera_x := player_x p7, camera_y := player_y p7\<rparr>)))"

text \<open>
  A sequence of ticks, each with its elapsed time and keys. \<^verbatim>\<open>Game.run\<close> skips the update
  while the game is paused; an exception ends the run.
\<close>

fun run_ticks :: "(real \<times> keys) list \<Rightarrow> game \<Rightarrow> error + game" where
  "run_ticks [] g = Inr g"
| "run_ticks ((dt, ks) # rest) g =
     (if paused g then run_ticks rest g
      else case update dt ks g of
             Inl err \<Rightarrow> Inl err
           | Inr g1 \<Rightarrow> run_ticks rest g1)"

text \<open>
  \<^verbatim>\<open>Game.craft\<close>. The source repeats the placement-and-refund code for \<^verbatim>\<open>'campfire'\<close> and
  \<^verbatim>\<open>'wooden_shack'\<close>; \<open>craft_structure\<close> is that code, with the structure's name as argument.
\<close>

definition consume :: "(string \<times> int) list \<Rightarrow> inventory \<Rightarrow> inventory" where
  "consume req iv = fold (\<lambda>(rid, amt) acc. snd (remove acc rid amt)) req iv"

definition refund :: "(string \<times> int) list \<Rightarrow> inventory \<Rightarrow> inventory" where
  "refund req iv = fold (\<lambda>(rid, amt) acc. snd (add acc rid (capitalize rid) amt)) req iv"

definition craft_structure :: "game \<Rightarrow> (string \<times> int) list \<Rightarrow> inventory \<Rightarrow> string \<Rightarrow> bool \<times> game" where
  "craft_structure g req iv1 structure_name =
     (let (tx, ty) = player_tile (player g);
          (placed, wd1) = place_structure (world g) tx ty structure_name
      in if \<not> placed
         then (False, g\<lparr>world := wd1, player := (player g)\<lparr>inventory := refund req iv1\<rparr>\<rparr>)
         else (True, g\<lparr>world := wd1, player := (player g)\<lparr>inventory := iv1\<rparr>\<rparr>))"

definition craft :: "game \<Rightarrow> string \<Rightarrow> bool \<times> game" where
  "craft g recipe_id =
     (case map_of RECIPES recipe_id of
        None \<Rightarrow> (False, g)
      | Some rc \<Rightarrow>
          (let req = requires rc;
               iv = inventory (player g)
           in if \<not> list_all (\<lambda>(rid, amt). has iv rid amt) req then (False, g)
              else
                (let iv1 = consume req iv
                 in if recipe_id = ''campfire'' then craft_structure g req iv1 ''campfire''
                    else if recipe_id = ''wooden_shack'' then craft_structure g req iv1 ''shack''
                    else (True, g\<lparr>player := (player g)
                            \<lparr>inventory := snd (add iv1 recipe_id (recipe_name rc) 1)\<rparr>\<rparr>))))"

subsection \<open>Snapshots: save and load\<close>

text \<open>
  The value \<^verbatim>\<open>json.dump\<close> writes and \<^verbatim>\<open>json.load\<close> returns. The \<^verbatim>\<open>json\<close> module writes
  every int, float, string, \<^verbatim>\<open>None\<close>, list and string-keyed dict so that it reads back
  equal, so a file is modelled by the value it decodes to, or as text that does not parse.
\<close>

datatype json =
    JNull
  | JBool bool
  | JInt int
  | JFloat real
  | JStr string
  | JList "json list"
  | JDict "(string \<times> json) list"

datatype save_file = Corrupt | Doc json

type_synonym files = "string \<rightharpoonup> save_file"

definition andThen :: "error + 'a \<Rightarrow> ('a \<Rightarrow> error + 'b) \<Rightarrow> error + 'b" where
  "andThen m f = (case m of Inl err \<Rightarrow> Inl err | Inr v \<Rightarrow> f v)"

fun mapM :: "('a \<Rightarrow> error + 'b) \<Rightarrow> 'a list \<Rightarrow> error + 'b list" where
  "mapM f [] = Inr []"
| "mapM f (v # vs) = andThen (f v) (\<lambda>u. andThen (mapM f vs) (\<lambda>us. Inr (u # us)))"

text \<open>\<^verbatim>\<open>d[key]\<close> with a string key, \<^verbatim>\<open>d.get(key, default)\<close>, \<^verbatim>\<open>l[i]\<close> with \<open>i \<ge> 0\<close>, and iteration.\<close>

definition getitem :: "json \<Rightarrow> string \<Rightarrow> error + json" where
  "getitem d k =
     (case d of
        JDict kvs \<Rightarrow> (case map_of kvs k of None \<Rightarrow> Inl KeyError | Some v \<Rightarrow> Inr v)
      | _ \<Rightarrow> Inl TypeError)"

definition dict_get :: "json \<Rightarrow> string \<Rightarrow> json \<Rightarrow> error + json" where
  "dict_get d k dflt =
     (case d of
        JDict kvs \<Rightarrow> Inr (case map_of kvs k of None \<Rightarrow> dflt | Some v \<Rightarrow> v)
      | _ \<Rightarrow> Inl AttributeError)"

definition index :: "json \<Rightarrow> nat \<Rightarrow> error + json" where
  "index l i =
     (case l of
        JList vs \<Rightarrow> if i < length vs then Inr (vs ! i) else Inl IndexError
      | JStr cs \<Rightarrow> if i < length cs then Inr (JStr [cs ! i]) else Inl IndexError
      | JDict kvs \<Rightarrow> Inl KeyError
      | _ \<Rightarrow> Inl TypeError)"

definition iterate :: "json \<Rightarrow> error + json list" where
  "iterate l =
     (case l of
        JList vs \<Rightarrow> Inr vs
      | JStr cs \<Rightarrow> Inr (map (\<lambda>c. JStr [c]) cs)
      | JDict kvs \<Rightarrow> Inr (map (\<lambda>kv. JStr (fst kv)) kvs)
      | _ \<Rightarrow> Inl TypeError)"

text \<open>Reading a decoded value into a typed field.\<close>

definition as_range :: "json \<Rightarrow> error + int" where
  "as_range v =
     (case v of JInt n \<Rightarrow> Inr n | JBool b \<Rightarrow> Inr (if b then 1 else 0) | _ \<Rightarrow> Inl TypeError)"

definition as_int :: "json \<Rightarrow> error + int" where
  "as_int v = (case v of JInt n \<Rightarrow> Inr n | _ \<Rightarrow> Inl NotRepresentable)"

definition as_real :: "json \<Rightarrow> error + real" where
  "as_real v =
     (case v of JInt n \<Rightarrow> Inr (real_of_int n) | JFloat q \<Rightarrow> Inr q | _ \<Rightarrow> Inl NotRepresentable)"

definition as_str :: "json \<Rightarrow> error + string" where
  "as_str v = (case v of JStr cs \<Rightarrow> Inr cs | _ \<Rightarrow> Inl NotRepresentable)"

definition as_opt_str :: "json \<Rightarrow> error + string option" where
  "as_opt_str v =
     (case v of JNull \<Rightarrow> Inr None | JStr cs \<Rightarrow> Inr (Some cs) | _ \<Rightarrow> Inl NotRepresentable)"

definition opt_str_json :: "string option \<Rightarrow> json" where
  "opt_str_json v = (case v of None \<Rightarrow> JNull | Some cs \<Rightarrow> JStr cs)"

text \<open>\<^verbatim>\<open>World.to_dict\<close>: \<^verbatim>\<open>self.tiles[x][y]\<close> raises \<^verbatim>\<open>IndexError\<close> outside the lists.\<close>

definition cell_to_dict :: "tile \<Rightarrow> json" where
  "cell_to_dict t =
     JDict [(''k'', JStr (kind t)), (''r'', opt_str_json (resource t)),
            (''a'', JInt (resource_amount t)), (''b'', opt_str_json (built t))]"

definition tile_at :: "world \<Rightarrow> nat \<Rightarrow> nat \<Rightarrow> error + tile" where
  "tile_at wd i j =
     (if i < length (tiles wd) \<and> j < length (tiles wd ! i) then Inr (tiles wd ! i ! j)
      else Inl IndexError)"

definition world_to_dict :: "world \<Rightarrow> error + json" where
  "world_to_dict wd =
     andThen
       (mapM (\<lambda>i. andThen
                 (mapM (\<lambda>j. andThen (tile_at wd i j) (\<lambda>t. Inr (cell_to_dict t)))
                    [0 ..< nat (world_h wd)])
                 (\<lambda>col. Inr (JList col)))
          [0 ..< nat (world_w wd)])
       (\<lambda>cols. Inr (JDict [(''w'', JInt (world_w wd)), (''h'', JInt (world_h wd)),
                           (''tiles'', JList cols)]))"

text \<open>
  \<^verbatim>\<open>World.from_dict\<close>. \<^verbatim>\<open>World(w, h)\<close> needs integers for its \<^verbatim>\<open>range\<close> calls and runs
  \<^verbatim>\<open>generate\<close>, whose tiles are replaced at once but whose \<^verbatim>\<open>random.seed(42)\<close> and draws
  leave the \<^verbatim>\<open>random\<close> module in a state that depends on the size alone: \<open>seeded w h\<close>.
  The result is the world or the exception, and the state of \<^verbatim>\<open>random\<close>.
\<close>

definition cell_from_dict :: "json \<Rightarrow> error + tile" where
  "cell_from_dict cell =
     andThen (getitem cell ''k'') (\<lambda>k.
     andThen (getitem cell ''r'') (\<lambda>r.
     andThen (getitem cell ''a'') (\<lambda>a.
     andThen (getitem cell ''b'') (\<lambda>b.
     andThen (as_str k) (\<lambda>k1.
     andThen (as_opt_str r) (\<lambda>r1.
     andThen (as_int a) (\<lambda>a1.
     andThen (as_opt_str b) (\<lambda>b1.
       Inr \<lparr>kind = k1, resource = r1, resource_amount = a1, built = b1\<rparr>))))))))"

definition world_from_dict :: "(int \<Rightarrow> int \<Rightarrow> rng) \<Rightarrow> json \<Rightarrow> rng \<Rightarrow> (error + world) \<times> rng" where
  "world_from_dict seeded data r =
     (case andThen (getitem data ''w'') (\<lambda>wj.
           andThen (getitem data ''h'') (\<lambda>hj.
           andThen (as_range wj) (\<lambda>wi.
           andThen (as_range hj) (\<lambda>hi. Inr (wi, hi))))) of
        Inl err \<Rightarrow> (Inl err, r)
      | Inr (wi, hi) \<Rightarrow>
          (andThen
             (mapM (\<lambda>i. mapM (\<lambda>j.
                      andThen (getitem data ''tiles'') (\<lambda>tl.
                      andThen (index tl i) (\<lambda>col.
                      andThen (index col j) cell_from_dict)))
                    [0 ..< nat hi])
                [0 ..< nat wi])
             (\<lambda>cols. Inr \<lparr>world_w = wi, world_h = hi, tiles = cols\<rparr>),
           seeded wi hi))"

text \<open>\<^verbatim>\<open>Inventory.to_list\<close> and \<^verbatim>\<open>Inventory.from_list\<close>.\<close>

definition item_to_dict :: "item \<Rightarrow> json" where
  "item_to_dict it =
     JDict [(''id'', JStr (item_id it)), (''name'', JStr (name it)), (''amount'', JInt (amount it))]"

definition to_list :: "inventory \<Rightarrow> json" where
  "to_list iv = JList (map (\<lambda>kv. item_to_dict (snd kv)) (items iv))"

definition item_from_dict :: "json \<Rightarrow> error + (string \<times> item)" where
  "item_from_dict i =
     andThen (getitem i ''id'') (\<lambda>k.
     andThen (getitem i ''id'') (\<lambda>d.
     andThen (getitem i ''name'') (\<lambda>n.
     andThen (getitem i ''amount'') (\<lambda>a.
     andThen (as_str k) (\<lambda>k1.
     andThen (as_str d) (\<lambda>d1.
     andThen (as_str n) (\<lambda>n1.
     andThen (as_int a) (\<lambda>a1.
       Inr (k1, \<lparr>item_id = d1, name = n1, amount = a1\<rparr>)))))))))"

definition from_list :: "json \<Rightarrow> error + inventory" where
  "from_list lst =
     andThen (iterate lst) (\<lambda>vs.
     andThen (mapM item_from_dict vs) (\<lambda>kvs.
       Inr (Inventory0\<lparr>items := fold (\<lambda>kv acc. AList.update (fst kv) (snd kv) acc) kvs []\<rparr>)))"

text \<open>\<^verbatim>\<open>Player.to_dict\<close> and \<^verbatim>\<open>Player.from_dict\<close>.\<close>

definition player_to_dict :: "player \<Rightarrow> json" where
  "player_to_dict p =
     JDict [(''x'', JFloat (player_x p)), (''y'', JFloat (player_y p)),
            (''health'', JFloat (health p)), (''hunger'', JFloat (hunger p)),
            (''thirst'', JFloat (thirst p)), (''stamina'', JFloat (stamina p)),
            (''inventory'', to_list (inventory p)), (''equipped'', opt_str_json (equipped p))]"

definition player_from_dict :: "json \<Rightarrow> error + player" where
  "player_from_dict d =
     andThen (getitem d ''x'') (\<lambda>xj.
     andThen (getitem d ''y'') (\<lambda>yj.
     andThen (as_real xj) (\<lambda>x1.
     andThen (as_real yj) (\<lambda>y1.
     andThen (andThen (getitem d ''health'') as_real) (\<lambda>he.
     andThen (andThen (getitem d ''hunger'') as_real) (\<lambda>hu.
     andThen (andThen (getitem d ''thirst'') as_real) (\<lambda>th.
     andThen (andThen (getitem d ''stamina'') as_real) (\<lambda>st.
     andThen (andThen (getitem d ''inventory'') from_list) (\<lambda>iv.
     andThen (andThen (getitem d ''equipped'') as_opt_str) (\<lambda>eq.
       Inr ((Player0 x1 y1)\<lparr>health := he, hunger := hu, thirst := th, stamina := st,
                             inventory := iv, equipped := eq\<rparr>)))))))))))"

text \<open>\<^verbatim>\<open>Game.save\<close>: the document, and the write to the file.\<close>

definition entity_to_dict :: "entity \<Rightarrow> json" where
  "entity_to_dict e =
     JDict [(''x'', JFloat (ent_x e)), (''y'', JFloat (ent_y e)), (''health'', JFloat (ent_health e))]"

definition save_data :: "game \<Rightarrow> error + json" where
  "save_data g =
     andThen (world_to_dict (world g)) (\<lambda>wj.
       Inr (JDict [(''world'', wj), (''player'', player_to_dict (player g)),
                   (''time_of_day'', JFloat (time_of_day g)),
                   (''entities'', JList (map entity_to_dict (entities g)))]))"

definition save :: "files \<Rightarrow> string \<Rightarrow> game \<Rightarrow> error + files" where
  "save fs filename g = andThen (save_data g) (\<lambda>data. Inr (fs(filename \<mapsto> Doc data)))"

text \<open>
  \<^verbatim>\<open>Game.load\<close> assigns \<^verbatim>\<open>self.world\<close>, \<^verbatim>\<open>self.player\<close>, \<^verbatim>\<open>self.time_of_day\<close> and
  \<^verbatim>\<open>self.entities\<close> one after the other, so an exception leaves the assignments made
  before it in place: the result is the exception, if any, and the game as it then is.
\<close>

definition entity_from_dict :: "json \<Rightarrow> error + entity" where
  "entity_from_dict d =
     andThen (getitem d ''x'') (\<lambda>xj.
     andThen (getitem d ''y'') (\<lambda>yj.
     andThen (as_real xj) (\<lambda>x1.
     andThen (as_real yj) (\<lambda>y1. Inr (Entity0 x1 y1)))))"

definition entity_health :: "json \<Rightarrow> error + real" where
  "entity_health d = andThen (dict_get d ''health'' (JInt 50)) as_real"

fun load_healths :: "entity list \<Rightarrow> json list \<Rightarrow> error option \<times> entity list" where
  "load_healths (e # es) (d # ds) =
     (case entity_health d of
        Inl err \<Rightarrow> (Some err, e # es)
      | Inr hp \<Rightarrow>
          (let (res, es1) = load_healths es ds in (res, e\<lparr>ent_health := hp\<rparr> # es1)))"
| "load_healths es ds = (None, es)"

definition load_entities :: "json \<Rightarrow> game \<Rightarrow> error option \<times> game" where
  "load_entities data g =
     (case andThen (dict_get data ''entities'' (JList [])) iterate of
        Inl err \<Rightarrow> (Some err, g)
      | Inr ds \<Rightarrow>
          (case mapM entity_from_dict ds of
             Inl err \<Rightarrow> (Some err, g)
           | Inr es \<Rightarrow>
               (let (res, es1) = load_healths es ds in (res, g\<lparr>entities := es1\<rparr>))))"

definition load_data :: "(int \<Rightarrow> int \<Rightarrow> rng) \<Rightarrow> json \<Rightarrow> game \<Rightarrow> error option \<times> game" where
  "load_data seeded data g =
     (case getitem data ''world'' of
        Inl err \<Rightarrow> (Some err, g)
      | Inr wj \<Rightarrow>
          (case world_from_dict seeded wj (rng g) of
             (Inl err, r1) \<Rightarrow> (Some err, g\<lparr>rng := r1\<rparr>)
           | (Inr wd, r1) \<Rightarrow>
               (let g1 = g\<lparr>rng := r1, world := wd\<rparr>
                in case andThen (getitem data ''player'') player_from_dict of
                     Inl err \<Rightarrow> (Some err, g1)
                   | Inr p \<Rightarrow>
                       (let g2 = g1\<lparr>player := p\<rparr>
                        in case andThen (dict_get data ''time_of_day'' (JFloat 0)) as_real of
                             Inl err \<Rightarrow> (Some err, g2)
                           | Inr tod \<Rightarrow> load_entities data (g2\<lparr>time_of_day := tod\<rparr>)))))"

definition load :: "(int \<Rightarrow> int \<Rightarrow> rng) \<Rightarrow> files \<Rightarrow> string \<Rightarrow> game \<Rightarrow> error option \<times> game" where
  "load seeded fs filename g =
     (case fs filename of
        None \<Rightarrow> (Some FileNotFoundError, g)
      | Some Corrupt \<Rightarrow> (Some JSONDecodeError, g)
      | Some (Doc data) \<Rightarrow> load_data seeded data g)"

text \<open>
  The end of \<^verbatim>\<open>Game.__init__\<close>: the save is loaded if the file exists, and an exception of
  \<^verbatim>\<open>load\<close> is caught and printed. The result is the session the game starts with.
\<close>

definition init_load :: "(int \<Rightarrow> int \<Rightarrow> rng) \<Rightarrow> files \<Rightarrow> string \<Rightarrow> game \<Rightarrow> game" where
  "init_load seeded fs filename g =
     (if fs filename \<noteq> None then snd (load seeded fs filename g) else g)"

subsection \<open>The states a run of the game passes through\<close>

text \<open>
  \<^verbatim>\<open>Game.__init__\<close> before the load: the world that \<^verbatim>\<open>World()\<close> generated, the player at its
  centre with the starter items, and the entities it spawned, as it finds the \<^verbatim>\<open>random\<close>
  module afterwards.
\<close>

definition game_init :: "world \<Rightarrow> entity list \<Rightarrow> rng \<Rightarrow> game" where
  "game_init wd es r =
     (let p = Player0 (real_of_int (world_w wd * TILE_SIZE div 2))
                      (real_of_int (world_h wd * TILE_SIZE div 2));
          iv1 = snd (add (inventory p) ''wood'' ''Wood'' 5);
          iv2 = snd (add iv1 ''stone'' ''Stone'' 3)
      in \<lparr>world = wd, player = p\<lparr>inventory := iv2\<rparr>, camera_x = player_x p, camera_y = player_y p,
          entities = es, paused = False, time_of_day = 0, weather = None, rng = r\<rparr>)"

text \<open>
  The states of a session: \<^verbatim>\<open>__init__\<close> with a generated world of the right shape, with or
  without the load of whatever the save file holds, and from there the handlers of
  \<^verbatim>\<open>handle_events\<close> (interact, pause, the F9 heal, a structure placed in build mode), a craft,
  and a tick that raises nothing.
\<close>

inductive reachable :: "game \<Rightarrow> bool" where
  start: "world_ok wd \<Longrightarrow> reachable (game_init wd es r)"
| start_loaded: "world_ok wd \<Longrightarrow> reachable (init_load sd fs filename (game_init wd es r))"
| interact: "reachable g \<Longrightarrow> reachable (try_interact g)"
| crafted: "reachable g \<Longrightarrow> reachable (snd (craft g recipe_id))"
| tick: "reachable g \<Longrightarrow> update dt ks g = Inr g1 \<Longrightarrow> reachable g1"
| pause: "reachable g \<Longrightarrow> reachable (g\<lparr>paused := \<not> paused g\<rparr>)"
| heal: "reachable g \<Longrightarrow>
         reachable (g\<lparr>player := (player g)\<lparr>health := min MAX_HEALTH (health (player g) + 20)\<rparr>\<rparr>)"
| build: "reachable g \<Longrightarrow>
          reachable (g\<lparr>world := snd (place_structure (world g) tx ty ''campfire'')\<rparr>)"

subsection \<open>Concrete states for the examples\<close>

definition tree_tile :: tile where
  "tree_tile = \<lparr>kind = TILE_FOREST, resource = Some RESOURCE_TREE, resource_amount = 1, built = None\<rparr>"

definition sand_tile :: tile where
  "sand_tile = \<lparr>kind = TILE_SAND, resource = None, resource_amount = 0, built = None\<rparr>"

text \<open>A world of one column: a tree with one unit left at (0, 0), sand at (0, 1).\<close>

definition small_world :: world where
  "small_world = \<lparr>world_w = 1, world_h = 2, tiles = [[tree_tile, sand_tile]]\<rparr>"

text \<open>
  A session around a given world and player: no entities, not paused, every random draw
  equal to 1/2.
\<close>

definition session :: "world \<Rightarrow> player \<Rightarrow> game" where
  "session wd p =
     \<lparr>world = wd, player = p, camera_x = player_x p, camera_y = player_y p, entities = [],
      paused = False, time_of_day = 0, weather = None, rng = sconst (1 / 2)\<rparr>"

text \<open>A player at the origin who carries the given stacks in an inventory of capacity 30.\<close>

definition carrying :: "(string \<times> item) list \<Rightarrow> player" where
  "carrying its = (Player0 0 0)\<lparr>inventory := \<lparr>items = its, capacity = 30\<rparr>\<rparr>"

text \<open>A tree with three units left, and a world of that one tile.\<close>

definition big_tree :: tile where
  "big_tree = \<lparr>kind = TILE_FOREST, resource = Some RESOURCE_TREE, resource_amount = 3, built = None\<rparr>"

definition tree_world :: world where
  "tree_world = \<lparr>world_w = 1, world_h = 1, tiles = [[big_tree]]\<rparr>"

text \<open>Thirty stacks, none of them wood: an inventory of capacity 30 that is full.\<close>

definition junk :: "nat \<Rightarrow> string \<times> item" where
  "junk n = (replicate (Suc n) CHR ''x'',
             \<lparr>item_id = replicate (Suc n) CHR ''x'', name = ''Junk'', amount = 1\<rparr>)"

definition full_stacks :: "(string \<times> item) list" where
  "full_stacks = map junk [0 ..< 30]"

text \<open>A world of one grass tile on which a campfire stands.\<close>

definition camp_tile :: tile where
  "camp_tile = \<lparr>kind = TILE_GRASS, resource = None, resource_amount = 0, built = Some ''campfire''\<rparr>"

definition camp_world :: world where
  "camp_world = \<lparr>world_w = 1, world_h = 1, tiles = [[camp_tile]]\<rparr>"

definition wood_stack :: "string \<Rightarrow> int \<Rightarrow> string \<times> item" where
  "wood_stack nm n = (''wood'', \<lparr>item_id = ''wood'', name = nm, amount = n\<rparr>)"

text \<open>
  What \<^verbatim>\<open>contents\<close> of an inventory a comparison looks at: for each id, the display name
  and the amount of its stack.
\<close>

definition contents :: "inventory \<Rightarrow> string \<rightharpoonup> string \<times> int" where
  "contents iv k = map_option (\<lambda>it. (name it, amount it)) (map_of (items iv) k)"

text \<open>
  A craft takes a stack whole when the recipe is known, the inventory passes the \<^verbatim>\<open>has\<close>
  check for every requirement, and some requirement asks for exactly the stock of its item:
  then \<^verbatim>\<open>remove\<close> deletes that stack, and a refund has to build it anew.
\<close>

definition whole_stack_taken :: "game \<Rightarrow> string \<Rightarrow> bool" where
  "whole_stack_taken g recipe_id =
     (case map_of RECIPES recipe_id of
        None \<Rightarrow> False
      | Some rc \<Rightarrow>
          list_all (\<lambda>(rid, amt). has (inventory (player g)) rid amt) (requires rc) \<and>
          list_ex (\<lambda>(rid, amt). stock (inventory (player g)) rid = amt) (requires rc))"

text \<open>
  The sub-expressions of \<^verbatim>\<open>update_player\<close> that its properties speak about: the movement
  intent read from the keys, whether the player moves (\<^verbatim>\<open>norm > 0\<close>), and whether the sprint
  branch is taken.
\<close>

definition intent_x :: "keys \<Rightarrow> real" where
  "intent_x ks = (0 - (if K_a ks then 1 else 0)) + (if K_d ks then 1 else 0)"

definition intent_y :: "keys \<Rightarrow> real" where
  "intent_y ks = (0 - (if K_w ks then 1 else 0)) + (if K_s ks then 1 else 0)"

definition moving :: "keys \<Rightarrow> bool" where
  "moving ks = (hypot (intent_x ks) (intent_y ks) > 0)"

definition sprinting :: "keys \<Rightarrow> player \<Rightarrow> bool" where
  "sprinting ks p = (K_LSHIFT ks \<and> stamina p > 1)"

text \<open>Keys held: sprint and right; sprint alone; right alone.\<close>

definition sprint_right :: keys where
  "sprint_right = no_keys\<lparr>K_LSHIFT := True, K_d := True\<rparr>"

definition sprint_only :: keys where
  "sprint_only = no_keys\<lparr>K_LSHIFT := True\<rparr>"

definition right_only :: keys where
  "right_only = no_keys\<lparr>K_d := True\<rparr>"

text \<open>
  A fresh player at the origin of \<open>tree_world\<close>, alone, and with one idle creature 500
  units away.
\<close>

definition lone_session :: game where
  "lone_session = session tree_world (Player0 0 0)"

definition far_session :: game where
  "far_session = (session tree_world (Player0 0 0))\<lparr>entities := [Entity0 300 400]\<rparr>"

text \<open>The sessions in which that creature stays idle and far: what idle ticks keep.\<close>

definition far_idle :: "game \<Rightarrow> bool" where
  "far_idle g \<longleftrightarrow>
     world g = tree_world \<and> entities g = [Entity0 300 400] \<and> rng g = sconst (1 / 2) \<and>
     \<not> paused g \<and> player_x (player g) = 0 \<and> player_y (player g) = 0"

subsection \<open>The shape of the states the program builds\<close>

text \<open>
  A \<^verbatim>\<open>dict\<close> has no key twice, and \<^verbatim>\<open>add\<close> and \<^verbatim>\<open>from_list\<close> store every \<^verbatim>\<open>Item\<close> under its
  own \<^verbatim>\<open>id\<close>; the grid of a \<^verbatim>\<open>World\<close> has its \<open>w\<close> columns of \<open>h\<close> tiles.
\<close>

definition inventory_ok :: "inventory \<Rightarrow> bool" where
  "inventory_ok iv =
     (distinct (map fst (items iv)) \<and> list_all (\<lambda>kv. item_id (snd kv) = fst kv) (items iv))"

definition game_ok :: "game \<Rightarrow> bool" where
  "game_ok g = (world_ok (world g) \<and> inventory_ok (inventory (player g)))"

text \<open>
  What a load leaves of a player and of an entity: the saved fields, around the defaults of
  the constructors.
\<close>

definition restored_player :: "player \<Rightarrow> player" where
  "restored_player p =
     (Player0 (player_x p) (player_y p))
       \<lparr>health := health p, hunger := hunger p, thirst := thirst p, stamina := stamina p,
        inventory := Inventory0\<lparr>items := items (inventory p)\<rparr>, equipped := equipped p\<rparr>"

definition restored_entity :: "entity \<Rightarrow> entity" where
  "restored_entity e = (Entity0 (ent_x e) (ent_y e))\<lparr>ent_health := ent_health e\<rparr>"

text \<open>
  What the round trip is to reproduce: \<open>restores g g1\<close> says that \<open>g1\<close> has the world of \<open>g\<close>,
  the player's position, vital statistics, stacks and equipped id, the time of day, and the
  entities of \<open>g\<close> by position and health, each at rest and idle.
\<close>

definition restores :: "game \<Rightarrow> game \<Rightarrow> bool" where
  "restores g g1 =
     (world g1 = world g \<and>
      player_x (player g1) = player_x (player g) \<and>
      player_y (player g1) = player_y (player g) \<and>
      health (player g1) = health (player g) \<and>
      hunger (player g1) = hunger (player g) \<and>
      thirst (player g1) = thirst (player g) \<and>
      stamina (player g1) = stamina (player g) \<and>
      items (inventory (player g1)) = items (inventory (player g)) \<and>
      equipped (player g1) = equipped (player g) \<and>
      time_of_day g1 = time_of_day g \<and>
      map ent_x (entities g1) = map ent_x (entities g) \<and>
      map ent_y (entities g1) = map ent_y (entities g) \<and>
      map ent_health (entities g1) = map ent_health (entities g) \<and>
      list_all (\<lambda>e. ent_vx e = 0 \<and> ent_vy e = 0 \<and> ent_state e = ''idle'') (entities g1))"

text \<open>
  A state of \<^verbatim>\<open>random\<close> after \<^verbatim>\<open>World(w, h)\<close> for the examples, the name of the save file, and
  a snapshot that holds the world of \<open>camp_world\<close> and nothing else.
\<close>

definition some_seed :: "int \<Rightarrow> int \<Rightarrow> rng" where
  "some_seed wi hi = sconst 0"

definition SAVE_FILE :: string where
  "SAVE_FILE = ''survivors_echo_save.json''"

definition world_only :: json where
  "world_only =
     JDict [(''world'',
             JDict [(''w'', JInt 1), (''h'', JInt 1),
                    (''tiles'', JList [JList [cell_to_dict camp_tile]])])]"

text \<open>The list \<^verbatim>\<open>World.to_dict\<close> stores under \<^verbatim>\<open>'tiles'\<close> for a grid of the right shape.\<close>

definition tiles_json :: "world \<Rightarrow> json" where
  "tiles_json wd = JList (map (\<lambda>col. JList (map cell_to_dict col)) (tiles wd))"

text \<open>
  A game as \<^verbatim>\<open>__init__\<close> leaves it on \<open>small_world\<close>, with one wounded creature that attacks
  from (3, 4).
\<close>

definition attacker :: entity where
  "attacker = (Entity0 3 4)\<lparr>ent_state := ''attack'', ent_vx := - 28.8, ent_vy := - 38.4,
                            ent_health := 35\<rparr>"

definition started :: game where
  "started = game_init small_world [attacker] (sconst (1 / 2))"

section \<open>Properties\<close>

lemmas tile_consts =
  TILE_GRASS_def TILE_WATER_def TILE_FOREST_def TILE_ROCK_def TILE_SAND_def
  RESOURCE_TREE_def RESOURCE_STONE_def RESOURCE_BUSH_def

subsection \<open>Reading and writing one tile of the grid\<close>

lemma in_bounds_nth:
  assumes "world_ok wd" "in_bounds wd tx ty"
  shows "nat tx < length (tiles wd)" "nat ty < length (tiles wd ! nat tx)"
proof -
  from assms show a: "nat tx < length (tiles wd)"
    by (simp add: world_ok_def in_bounds_def) linarith
  from assms(1) a have "int (length (tiles wd ! nat tx)) = max 0 (world_h wd)"
    by (simp add: world_ok_def list_all_length)
  with assms(2) show "nat ty < length (tiles wd ! nat tx)"
    by (simp add: in_bounds_def) linarith
qed

lemma in_bounds_set_tile [simp]: "in_bounds (set_tile wd tx ty t) a b = in_bounds wd a b"
  by (simp add: in_bounds_def set_tile_def)

lemma in_bounds_tiles_update [simp]: "in_bounds (wd\<lparr>tiles := ts\<rparr>) a b = in_bounds wd a b"
  by (simp add: in_bounds_def)

lemma get_tile_Some_in_bounds: "get_tile wd tx ty = Some t \<Longrightarrow> in_bounds wd tx ty"
  by (simp add: get_tile_def split: if_splits)

lemma get_set_tile_same:
  "world_ok wd \<Longrightarrow> in_bounds wd tx ty \<Longrightarrow> get_tile (set_tile wd tx ty t) tx ty = Some t"
  using in_bounds_nth [of wd tx ty]
  by (simp add: get_tile_def) (simp add: set_tile_def)

lemma get_set_tile_other:
  assumes "(a, b) \<noteq> (tx, ty)" and "in_bounds wd tx ty"
  shows "get_tile (set_tile wd tx ty t) a b = get_tile wd a b"
proof (cases "in_bounds wd a b")
  case False
  then show ?thesis by (simp add: get_tile_def)
next
  case True
  then have ab: "0 \<le> a" "0 \<le> b" by (simp_all add: in_bounds_def)
  from assms(2) have txy: "0 \<le> tx" "0 \<le> ty" by (simp_all add: in_bounds_def)
  have "(tiles wd)[nat tx := (tiles wd ! nat tx)[nat ty := t]] ! nat a ! nat b
          = tiles wd ! nat a ! nat b"
  proof (cases "a = tx")
    case False
    then have "nat a \<noteq> nat tx" using ab txy by simp
    then show ?thesis by simp
  next
    case eq: True
    with assms have "b \<noteq> ty" by simp
    then have "nat b \<noteq> nat ty" using ab txy by simp
    then show ?thesis using eq
      by (cases "nat tx < length (tiles wd)") (simp_all add: list_update_beyond)
  qed
  then show ?thesis using True by (simp add: get_tile_def set_tile_def)
qed

lemma world_ok_set_tile: "world_ok wd \<Longrightarrow> world_ok (set_tile wd tx ty t)"
proof -
  assume ok: "world_ok wd"
  have "int (length ((tiles wd)[nat tx := (tiles wd ! nat tx)[nat ty := t]] ! n)) = max 0 (world_h wd)"
    if "n < length (tiles wd)" for n
    using ok that by (cases "n = nat tx") (simp_all add: world_ok_def list_all_length)
  then show ?thesis using ok by (simp add: world_ok_def set_tile_def list_all_length)
qed

subsection \<open>Harvesting\<close>

lemma harvest_absent: "get_tile wd tx ty = None \<Longrightarrow> harvest wd tx ty amt = (0, wd)"
  by (simp add: harvest_def)

lemma harvest_no_resource:
  "get_tile wd tx ty = Some t \<Longrightarrow> \<not> truthy (resource t) \<Longrightarrow> harvest wd tx ty amt = (0, wd)"
  by (simp add: harvest_def)

lemma harvest_resource:
  "get_tile wd tx ty = Some t \<Longrightarrow> truthy (resource t) \<Longrightarrow>
   harvest wd tx ty amt =
     (min amt (resource_amount t),
      set_tile wd tx ty (deplete (t\<lparr>resource_amount := resource_amount t - min amt (resource_amount t)\<rparr>)))"
  by (simp add: harvest_def Let_def)

lemma deplete_amount [simp]: "resource_amount (deplete t) = resource_amount t"
  by (simp add: deplete_def Let_def)

lemma deplete_built [simp]: "built (deplete t) = built t"
  by (simp add: deplete_def Let_def)

lemma deplete_resource:
  "resource (deplete t) = (if resource_amount t \<le> 0 then None else resource t)"
  by (simp add: deplete_def Let_def)

lemma deplete_kind:
  "kind (deplete t) =
     (if resource_amount t \<le> 0 \<and> (kind t = TILE_FOREST \<or> kind t = TILE_ROCK) then TILE_GRASS
      else kind t)"
  by (simp add: deplete_def Let_def TILE_FOREST_def TILE_ROCK_def TILE_GRASS_def)

lemma world_ok_harvest: "world_ok wd \<Longrightarrow> world_ok (snd (harvest wd tx ty amt))"
  by (simp add: harvest_def Let_def world_ok_set_tile split: option.splits)

text \<open>
  C2. \<^verbatim>\<open>harvest(x, y, amount)\<close> returns 0 and changes nothing when the tile is out of bounds
  or has no resource. Otherwise it returns \<open>min amount resource_amount\<close>, the tile's amount
  drops by what was taken, and when the amount has reached 0 the resource is cleared and a
  forest or rock tile becomes grass, while a tile of any other kind (sand, water, grass)
  keeps its kind; a tile with some amount left keeps its resource and its kind.
\<close>

theorem harvest_taken_and_depletion:
  assumes ok: "world_ok wd"
  shows "(get_tile wd tx ty = None \<longrightarrow> harvest wd tx ty amt = (0, wd)) \<and>
         (\<forall>t. get_tile wd tx ty = Some t \<and> \<not> truthy (resource t) \<longrightarrow>
                harvest wd tx ty amt = (0, wd)) \<and>
         (\<forall>t. get_tile wd tx ty = Some t \<and> truthy (resource t) \<longrightarrow>
            (\<exists>t1. fst (harvest wd tx ty amt) = min amt (resource_amount t) \<and>
                  get_tile (snd (harvest wd tx ty amt)) tx ty = Some t1 \<and>
                  resource_amount t1 = resource_amount t - fst (harvest wd tx ty amt) \<and>
                  built t1 = built t \<and>
                  (if resource_amount t1 \<le> 0
                   then resource t1 = None \<and>
                        (kind t = TILE_FOREST \<or> kind t = TILE_ROCK \<longrightarrow> kind t1 = TILE_GRASS) \<and>
                        (kind t \<noteq> TILE_FOREST \<and> kind t \<noteq> TILE_ROCK \<longrightarrow> kind t1 = kind t)
                   else resource t1 = resource t \<and> kind t1 = kind t)))"
proof (intro conjI allI impI)
  show "get_tile wd tx ty = None \<Longrightarrow> harvest wd tx ty amt = (0, wd)"
    by (rule harvest_absent)
next
  fix t assume "get_tile wd tx ty = Some t \<and> \<not> truthy (resource t)"
  then show "harvest wd tx ty amt = (0, wd)" by (simp add: harvest_no_resource)
next
  fix t assume a: "get_tile wd tx ty = Some t \<and> truthy (resource t)"
  let ?t1 = "deplete (t\<lparr>resource_amount := resource_amount t - min amt (resource_amount t)\<rparr>)"
  from a have h: "harvest wd tx ty amt = (min amt (resource_amount t), set_tile wd tx ty ?t1)"
    by (simp add: harvest_resource)
  from a have ib: "in_bounds wd tx ty" by (simp add: get_tile_Some_in_bounds)
  have g: "get_tile (snd (harvest wd tx ty amt)) tx ty = Some ?t1"
    using ok ib by (simp add: h get_set_tile_same)
  show "\<exists>t1. fst (harvest wd tx ty amt) = min amt (resource_amount t) \<and>
                  get_tile (snd (harvest wd tx ty amt)) tx ty = Some t1 \<and>
                  resource_amount t1 = resource_amount t - fst (harvest wd tx ty amt) \<and>
                  built t1 = built t \<and>
                  (if resource_amount t1 \<le> 0
                   then resource t1 = None \<and>
                        (kind t = TILE_FOREST \<or> kind t = TILE_ROCK \<longrightarrow> kind t1 = TILE_GRASS) \<and>
                        (kind t \<noteq> TILE_FOREST \<and> kind t \<noteq> TILE_ROCK \<longrightarrow> kind t1 = kind t)
                   else resource t1 = resource t \<and> kind t1 = kind t)"
    apply (rule exI [of _ ?t1])
    apply (simp only: g)
    apply (simp add: h deplete_resource deplete_kind)
    done
qed

text \<open>
  The theorem at \<open>small_world\<close>: harvesting the last unit of the tree at (0, 0) returns 1 and
  leaves a grass tile without resource; the sand tile at (0, 1) yields nothing; (0, 2) is
  out of bounds.
\<close>

theorem harvest_taken_and_depletion_witness:
  "world_ok small_world \<and>
   fst (harvest small_world 0 0 1) = 1 \<and>
   (\<exists>t1. get_tile (snd (harvest small_world 0 0 1)) 0 0 = Some t1 \<and>
      resource_amount t1 = 0 \<and> resource t1 = None \<and> kind t1 = TILE_GRASS) \<and>
   harvest small_world 0 1 1 = (0, small_world) \<and>
   harvest small_world 0 2 1 = (0, small_world)"
proof -
  have ok: "world_ok small_world" by (simp add: world_ok_def small_world_def)
  have g0: "get_tile small_world 0 0 = Some tree_tile"
    by (simp add: get_tile_def in_bounds_def small_world_def)
  have g1: "get_tile small_world 0 1 = Some sand_tile"
    by (simp add: get_tile_def in_bounds_def small_world_def)
  have g2: "get_tile small_world 0 2 = None"
    by (simp add: get_tile_def in_bounds_def small_world_def)
  have tr: "truthy (resource tree_tile)" by (simp add: truthy_def tree_tile_def RESOURCE_TREE_def)
  have ns: "\<not> truthy (resource sand_tile)" by (simp add: truthy_def sand_tile_def)
  note T = harvest_taken_and_depletion [OF ok]
  from T [of 0 0 1] g0 tr obtain t1 where
    t1: "fst (harvest small_world 0 0 1) = min 1 (resource_amount tree_tile)"
        "get_tile (snd (harvest small_world 0 0 1)) 0 0 = Some t1"
        "resource_amount t1 = resource_amount tree_tile - fst (harvest small_world 0 0 1)"
        "if resource_amount t1 \<le> 0
         then resource t1 = None \<and>
              (kind tree_tile = TILE_FOREST \<or> kind tree_tile = TILE_ROCK \<longrightarrow> kind t1 = TILE_GRASS) \<and>
              (kind tree_tile \<noteq> TILE_FOREST \<and> kind tree_tile \<noteq> TILE_ROCK \<longrightarrow> kind t1 = kind tree_tile)
         else resource t1 = resource tree_tile \<and> kind t1 = kind tree_tile"
    by blast
  have a1: "fst (harvest small_world 0 0 1) = 1" using t1(1) by (simp add: tree_tile_def)
  have a2: "resource_amount t1 = 0" using t1(3) a1 by (simp add: tree_tile_def)
  have a3: "resource t1 = None \<and> kind t1 = TILE_GRASS" using t1(4) a2 by (simp add: tree_tile_def)
  from T [of 0 1 1] g1 ns have b: "harvest small_world 0 1 1 = (0, small_world)" by blast
  from T [of 0 2 1] g2 have c: "harvest small_world 0 2 1 = (0, small_world)" by blast
  from ok a1 a2 a3 t1(2) b c show ?thesis by blast
qed

subsection \<open>Inventory accounting\<close>

lemma update_absent: "map_of al k = None \<Longrightarrow> AList.update k v al = al @ [(k, v)]"
  by (induction al) (auto split: if_splits)

lemma stock_add:
  "stock (snd (add iv iid nm amt)) k =
     (if fst (add iv iid nm amt) \<and> k = iid then stock iv k + amt else stock iv k)"
  by (auto simp add: add_def stock_def update_conv' split: option.splits)

lemma stock_remove:
  "stock (snd (remove iv iid amt)) k =
     (if fst (remove iv iid amt) \<and> k = iid then stock iv k - amt else stock iv k)"
  by (auto simp add: remove_def stock_def update_conv' delete_conv' Let_def split: option.splits)

lemma stock_call:
  "stock (snd (call iv c)) k =
     stock iv k + added k [(c, fst (call iv c))] - removed k [(c, fst (call iv c))]"
  by (cases c) (auto simp add: stock_add stock_remove)

lemma stock_run_calls:
  "stock (snd (run_calls iv cs)) k =
     stock iv k + added k (fst (run_calls iv cs)) - removed k (fst (run_calls iv cs))"
proof (induction cs arbitrary: iv)
  case Nil
  then show ?case by simp
next
  case (Cons c cs)
  obtain ok iv1 where c: "call iv c = (ok, iv1)" by (cases "call iv c")
  obtain tr iv2 where r: "run_calls iv1 cs = (tr, iv2)" by (cases "run_calls iv1 cs")
  have 1: "stock iv1 k = stock iv k + added k [(c, ok)] - removed k [(c, ok)]"
    using stock_call [of iv c k] c by simp
  have 2: "stock iv2 k = stock iv1 k + added k tr - removed k tr"
    using Cons.IH [of iv1] r by simp
  have 3: "added k ((c, ok) # tr) = added k [(c, ok)] + added k tr"
    by (cases c) simp_all
  have 4: "removed k ((c, ok) # tr) = removed k [(c, ok)] + removed k tr"
    by (cases c) simp_all
  show ?case using 1 2 3 4 by (simp add: c r)
qed

lemma key_present: "k \<in> fst ` set al \<longleftrightarrow> map_of al k \<noteq> None"
  by (simp add: map_of_eq_None_iff)

lemma remove_succeeds_iff:
  "fst (remove iv iid amt) \<longleftrightarrow> (iid \<in> fst ` set (items iv) \<and> amt \<le> stock iv iid)"
  by (cases "map_of (items iv) iid") (auto simp add: remove_def stock_def Let_def key_present)

lemma remove_fails_unchanged: "\<not> fst (remove iv iid amt) \<Longrightarrow> snd (remove iv iid amt) = iv"
  by (auto simp add: remove_def Let_def split: option.splits if_splits)

lemma remove_nonneg: "fst (remove iv iid amt) \<Longrightarrow> 0 \<le> stock (snd (remove iv iid amt)) iid"
  by (auto simp add: remove_def stock_def Let_def update_conv' delete_conv'
           split: option.splits if_splits)

lemma add_succeeds_iff:
  "fst (add iv iid nm amt) \<longleftrightarrow>
     (iid \<in> fst ` set (items iv) \<or> int (length (items iv)) < capacity iv)"
  by (cases "map_of (items iv) iid") (auto simp add: add_def key_present)

lemma add_fails_unchanged: "\<not> fst (add iv iid nm amt) \<Longrightarrow> snd (add iv iid nm amt) = iv"
  by (auto simp add: add_def split: option.splits if_splits)

text \<open>
  C8. After any sequence of \<^verbatim>\<open>add\<close> and \<^verbatim>\<open>remove\<close> calls the stock of an id is its stock
  before, plus the amounts the successful adds of that id added, minus the amounts of the
  successful removes of that id. \<^verbatim>\<open>remove\<close> succeeds exactly when the id has a stack with
  at least the requested amount; a successful remove takes exactly the requested amount
  and leaves a stock that is not negative, and a failing one changes nothing. \<^verbatim>\<open>add\<close>
  succeeds exactly when the id has a stack already or the number of stacks is below the
  capacity, and a failing add changes nothing.
\<close>

theorem inventory_stock_accounting:
  "stock (snd (run_calls iv cs)) k =
     stock iv k + added k (fst (run_calls iv cs)) - removed k (fst (run_calls iv cs)) \<and>
   (fst (remove iv k amt) \<longleftrightarrow> (k \<in> fst ` set (items iv) \<and> amt \<le> stock iv k)) \<and>
   (if fst (remove iv k amt)
    then stock (snd (remove iv k amt)) k = stock iv k - amt \<and>
         0 \<le> stock (snd (remove iv k amt)) k
    else snd (remove iv k amt) = iv) \<and>
   (fst (add iv k nm amt) \<longleftrightarrow>
      (k \<in> fst ` set (items iv) \<or> int (length (items iv)) < capacity iv)) \<and>
   (if fst (add iv k nm amt)
    then stock (snd (add iv k nm amt)) k = stock iv k + amt
    else snd (add iv k nm amt) = iv)"
proof (intro conjI)
  show "stock (snd (run_calls iv cs)) k =
          stock iv k + added k (fst (run_calls iv cs)) - removed k (fst (run_calls iv cs))"
    by (rule stock_run_calls)
  show "fst (remove iv k amt) \<longleftrightarrow> (k \<in> fst ` set (items iv) \<and> amt \<le> stock iv k)"
    by (rule remove_succeeds_iff)
  show "if fst (remove iv k amt)
        then stock (snd (remove iv k amt)) k = stock iv k - amt \<and>
             0 \<le> stock (snd (remove iv k amt)) k
        else snd (remove iv k amt) = iv"
    using remove_nonneg [of iv k amt] remove_fails_unchanged [of iv k amt]
    by (simp add: stock_remove)
  show "fst (add iv k nm amt) \<longleftrightarrow>
          (k \<in> fst ` set (items iv) \<or> int (length (items iv)) < capacity iv)"
    by (rule add_succeeds_iff)
  show "if fst (add iv k nm amt)
        then stock (snd (add iv k nm amt)) k = stock iv k + amt
        else snd (add iv k nm amt) = iv"
    using add_fails_unchanged [of iv k nm amt] by (simp add: stock_add)
qed

text \<open>
  The theorem on an empty inventory of capacity 30: 5 wood added, 2 removed, then 10 asked
  for and refused; 3 are left.
\<close>

theorem inventory_stock_accounting_witness:
  "stock (snd (run_calls Inventory0
      [Add ''wood'' ''Wood'' 5, Remove ''wood'' 2, Remove ''wood'' 10])) ''wood'' = 3 \<and>
   fst (run_calls Inventory0 [Add ''wood'' ''Wood'' 5, Remove ''wood'' 2, Remove ''wood'' 10]) =
     [(Add ''wood'' ''Wood'' 5, True), (Remove ''wood'' 2, True), (Remove ''wood'' 10, False)]"
proof -
  let ?cs = "[Add ''wood'' ''Wood'' 5, Remove ''wood'' 2, Remove ''wood'' 10]"
  have tr: "fst (run_calls Inventory0 ?cs) =
     [(Add ''wood'' ''Wood'' 5, True), (Remove ''wood'' 2, True), (Remove ''wood'' 10, False)]"
    by (simp add: Inventory0_def add_def remove_def Let_def)
  have s0: "stock Inventory0 ''wood'' = 0" by (simp add: stock_def Inventory0_def)
  from inventory_stock_accounting [of Inventory0 ?cs "''wood''" 0 "''Wood''"]
  have "stock (snd (run_calls Inventory0 ?cs)) ''wood'' =
          stock Inventory0 ''wood'' + added ''wood'' (fst (run_calls Inventory0 ?cs))
            - removed ''wood'' (fst (run_calls Inventory0 ?cs))"
    by blast
  then have "stock (snd (run_calls Inventory0 ?cs)) ''wood'' = 3"
    by (simp only: tr s0) simp
  with tr show ?thesis by blast
qed

subsection \<open>Interacting with the tile under the player\<close>

lemma try_interact_resource:
  assumes ok: "world_ok (world g)"
    and pt: "player_tile (player g) = (tx, ty)"
    and gt: "get_tile (world g) tx ty = Some t"
    and tr: "truthy (resource t)"
  shows "try_interact g =
     (let taken = min 1 (resource_amount t);
          t1 = deplete (t\<lparr>resource_amount := resource_amount t - taken\<rparr>);
          g1 = g\<lparr>world := set_tile (world g) tx ty t1\<rparr>;
          iv = inventory (player g)
      in if taken > 0 then
           (if resource t1 = Some RESOURCE_TREE then
              g1\<lparr>player := (player g)\<lparr>inventory := snd (add iv ''wood'' ''Wood'' taken)\<rparr>\<rparr>
            else if resource t1 = Some RESOURCE_STONE then
              g1\<lparr>player := (player g)\<lparr>inventory := snd (add iv ''stone'' ''Stone'' taken)\<rparr>\<rparr>
            else if resource t1 = Some RESOURCE_BUSH then
              g1\<lparr>player := (player g)\<lparr>inventory := snd (add iv ''berries'' ''Berries'' taken)\<rparr>\<rparr>
            else g1)
         else g1)"
proof -
  have ib: "in_bounds (world g) tx ty" using gt by (rule get_tile_Some_in_bounds)
  have h: "harvest (world g) tx ty 1 =
     (min 1 (resource_amount t),
      set_tile (world g) tx ty (deplete (t\<lparr>resource_amount := resource_amount t - min 1 (resource_amount t)\<rparr>)))"
    using gt tr by (rule harvest_resource)
  have g1: "get_tile (set_tile (world g) tx ty u) tx ty = Some u" for u
    using ok ib by (rule get_set_tile_same)
  show ?thesis
    by (simp add: try_interact_def pt gt tr h g1 Let_def)
qed

text \<open>
  C10. When the tile under the player holds a resource with exactly one unit left,
  \<^verbatim>\<open>try_interact\<close> removes the unit from the world (the tile is left with amount 0 and no
  resource) and the inventory is not changed. When at least two units are left, the tile
  keeps its resource with one unit less, and for a tree, a stone or a bush the inventory is
  what \<^verbatim>\<open>add\<close> makes of one unit of wood, stone or berries: the stock rises by exactly 1
  when \<^verbatim>\<open>add\<close> accepts the item, and the inventory is unchanged when \<^verbatim>\<open>add\<close> refuses it.
\<close>

theorem try_interact_last_unit_lost:
  assumes ok: "world_ok (world g)"
    and pt: "player_tile (player g) = (tx, ty)"
    and gt: "get_tile (world g) tx ty = Some t"
    and tr: "truthy (resource t)"
  shows "(resource_amount t = 1 \<longrightarrow>
            inventory (player (try_interact g)) = inventory (player g) \<and>
            (\<exists>t1. get_tile (world (try_interact g)) tx ty = Some t1 \<and>
                  resource_amount t1 = 0 \<and> resource t1 = None)) \<and>
         (2 \<le> resource_amount t \<longrightarrow>
            (\<exists>t1. get_tile (world (try_interact g)) tx ty = Some t1 \<and>
                  resource_amount t1 = resource_amount t - 1 \<and> resource t1 = resource t) \<and>
            (\<forall>iid nm. (resource t, iid, nm) \<in>
                 {(Some RESOURCE_TREE, ''wood'', ''Wood''), (Some RESOURCE_STONE, ''stone'', ''Stone''),
                  (Some RESOURCE_BUSH, ''berries'', ''Berries'')} \<longrightarrow>
               inventory (player (try_interact g)) = snd (add (inventory (player g)) iid nm 1) \<and>
               (if fst (add (inventory (player g)) iid nm 1)
                then stock (inventory (player (try_interact g))) iid =
                       stock (inventory (player g)) iid + 1
                else inventory (player (try_interact g)) = inventory (player g))))"
proof (intro conjI impI allI)
  assume one: "resource_amount t = 1"
  have e: "try_interact g = g\<lparr>world := set_tile (world g) tx ty (deplete (t\<lparr>resource_amount := 0\<rparr>))\<rparr>"
    using try_interact_resource [OF ok pt gt tr] one
    by (simp add: Let_def deplete_resource)
  show "inventory (player (try_interact g)) = inventory (player g)"
    by (simp add: e)
  have "get_tile (world (try_interact g)) tx ty = Some (deplete (t\<lparr>resource_amount := 0\<rparr>))"
    using ok get_tile_Some_in_bounds [OF gt] by (simp add: e get_set_tile_same)
  then show "\<exists>t1. get_tile (world (try_interact g)) tx ty = Some t1 \<and>
                  resource_amount t1 = 0 \<and> resource t1 = None"
    by (simp add: deplete_resource)
next
  assume two: "2 \<le> resource_amount t"
  let ?t1 = "t\<lparr>resource_amount := resource_amount t - 1\<rparr>"
  have d: "deplete ?t1 = ?t1" using two by (simp add: deplete_def)
  have m: "min 1 (resource_amount t) = 1" using two by simp
  note e = try_interact_resource [OF ok pt gt tr, unfolded Let_def m d]
  have w: "world (try_interact g) = set_tile (world g) tx ty ?t1"
    by (simp add: e)
  have "get_tile (world (try_interact g)) tx ty = Some ?t1"
    using ok get_tile_Some_in_bounds [OF gt] by (simp add: w get_set_tile_same)
  then show "\<exists>t1. get_tile (world (try_interact g)) tx ty = Some t1 \<and>
                  resource_amount t1 = resource_amount t - 1 \<and> resource t1 = resource t"
    by simp
  fix iid nm
  assume "(resource t, iid, nm) \<in>
            {(Some RESOURCE_TREE, ''wood'', ''Wood''), (Some RESOURCE_STONE, ''stone'', ''Stone''),
             (Some RESOURCE_BUSH, ''berries'', ''Berries'')}"
  then have i: "inventory (player (try_interact g)) = snd (add (inventory (player g)) iid nm 1)"
    by (auto simp add: e tile_consts)
  show "inventory (player (try_interact g)) = snd (add (inventory (player g)) iid nm 1)"
    by (rule i)
  show "if fst (add (inventory (player g)) iid nm 1)
        then stock (inventory (player (try_interact g))) iid = stock (inventory (player g)) iid + 1
        else inventory (player (try_interact g)) = inventory (player g)"
    using add_fails_unchanged [of "inventory (player g)" iid nm 1]
    by (simp add: i stock_add)
qed

text \<open>
  The theorem at two sessions with an empty inventory: on \<open>small_world\<close> the last unit of
  the tree is taken and nothing is gained; on \<open>tree_world\<close> one of three units is taken and
  one wood is gained.
\<close>

lemma player_tile_carrying: "player_tile (carrying its) = (0, 0)"
  by (simp add: player_tile_def carrying_def Player0_def)

lemma session_simps [simp]:
  "world (session wd p) = wd" "player (session wd p) = p" "entities (session wd p) = []"
  "paused (session wd p) = False"
  by (simp_all add: session_def)

lemma inventory_carrying [simp]: "inventory (carrying its) = \<lparr>items = its, capacity = 30\<rparr>"
  by (simp add: carrying_def)

theorem try_interact_last_unit_lost_witness:
  "world_ok small_world \<and> get_tile small_world 0 0 = Some tree_tile \<and>
   truthy (resource tree_tile) \<and> resource_amount tree_tile = 1 \<and>
   inventory (player (try_interact (session small_world (carrying [])))) = inventory (carrying []) \<and>
   (\<exists>t1. get_tile (world (try_interact (session small_world (carrying [])))) 0 0 = Some t1 \<and>
         resource_amount t1 = 0 \<and> resource t1 = None) \<and>
   world_ok tree_world \<and> get_tile tree_world 0 0 = Some big_tree \<and>
   truthy (resource big_tree) \<and> 2 \<le> resource_amount big_tree \<and>
   stock (inventory (player (try_interact (session tree_world (carrying []))))) ''wood'' = 1"
proof -
  have ok1: "world_ok (world (session small_world (carrying [])))"
    by (simp add: world_ok_def small_world_def)
  have pt1: "player_tile (player (session small_world (carrying []))) = (0, 0)"
    by (simp add: player_tile_carrying)
  have g1: "get_tile (world (session small_world (carrying []))) 0 0 = Some tree_tile"
    by (simp add: get_tile_def in_bounds_def small_world_def)
  have tr1: "truthy (resource tree_tile)" by (simp add: truthy_def tree_tile_def RESOURCE_TREE_def)
  have one: "resource_amount tree_tile = 1" by (simp add: tree_tile_def)
  have ok2: "world_ok (world (session tree_world (carrying [])))"
    by (simp add: world_ok_def tree_world_def)
  have pt2: "player_tile (player (session tree_world (carrying []))) = (0, 0)"
    by (simp add: player_tile_carrying)
  have g2: "get_tile (world (session tree_world (carrying []))) 0 0 = Some big_tree"
    by (simp add: get_tile_def in_bounds_def tree_world_def)
  have tr2: "truthy (resource big_tree)" by (simp add: truthy_def big_tree_def RESOURCE_TREE_def)
  have two: "2 \<le> resource_amount big_tree" by (simp add: big_tree_def)
  have r2: "(resource big_tree, ''wood'', ''Wood'') \<in>
              {(Some RESOURCE_TREE, ''wood'', ''Wood''), (Some RESOURCE_STONE, ''stone'', ''Stone''),
               (Some RESOURCE_BUSH, ''berries'', ''Berries'')}"
    by (simp add: big_tree_def)
  have a2: "fst (add (inventory (player (session tree_world (carrying [])))) ''wood'' ''Wood'' 1)"
    by (simp add: add_def)
  have s2: "stock (inventory (player (session tree_world (carrying [])))) ''wood'' = 0"
    by (simp add: stock_def)
  from try_interact_last_unit_lost [OF ok1 pt1 g1 tr1] one
  have A: "inventory (player (try_interact (session small_world (carrying [])))) = inventory (carrying []) \<and>
     (\<exists>t1. get_tile (world (try_interact (session small_world (carrying [])))) 0 0 = Some t1 \<and>
           resource_amount t1 = 0 \<and> resource t1 = None)"
    by simp
  from try_interact_last_unit_lost [OF ok2 pt2 g2 tr2] two r2 a2
  have "stock (inventory (player (try_interact (session tree_world (carrying []))))) ''wood'' =
          stock (inventory (player (session tree_world (carrying [])))) ''wood'' + 1"
    by (metis (no_types, lifting))
  then have B: "stock (inventory (player (try_interact (session tree_world (carrying []))))) ''wood'' = 1"
    using s2 by simp
  from ok1 g1 tr1 one A ok2 g2 tr2 two B show ?thesis by simp
qed

text \<open>
  The claim as written promises the harvested unit whenever a unit remains. With thirty
  stacks and none of wood, \<^verbatim>\<open>add\<close> refuses the wood: one unit leaves the tree (two of three
  remain, the resource stays) and the inventory is what it was.
\<close>

lemma junk_key_not_wood: "fst (junk n) \<noteq> ''wood''"
  by (simp add: junk_def)

lemma full_stacks_no_wood: "map_of full_stacks ''wood'' = None"
proof -
  have "k \<noteq> ''wood''" if "k \<in> fst ` set full_stacks" for k
  proof -
    from that obtain n where "k = fst (junk n)" by (auto simp add: full_stacks_def)
    then show ?thesis by (simp add: junk_key_not_wood)
  qed
  then show ?thesis by (auto simp add: map_of_eq_None_iff)
qed

lemma length_full_stacks: "length full_stacks = 30"
  by (simp add: full_stacks_def)

theorem try_interact_full_inventory_counterexample:
  "get_tile (world (session tree_world (carrying full_stacks))) 0 0 = Some big_tree \<and>
   resource_amount big_tree = 3 \<and> resource big_tree = Some RESOURCE_TREE \<and>
   get_tile (world (try_interact (session tree_world (carrying full_stacks)))) 0 0 =
     Some (big_tree\<lparr>resource_amount := 2\<rparr>) \<and>
   inventory (player (try_interact (session tree_world (carrying full_stacks)))) =
     inventory (carrying full_stacks) \<and>
   stock (inventory (player (try_interact (session tree_world (carrying full_stacks))))) ''wood'' = 0"
proof -
  let ?g = "session tree_world (carrying full_stacks)"
  have ok: "world_ok (world ?g)" by (simp add: world_ok_def tree_world_def)
  have pt: "player_tile (player ?g) = (0, 0)" by (simp add: player_tile_carrying)
  have gt: "get_tile (world ?g) 0 0 = Some big_tree"
    by (simp add: get_tile_def in_bounds_def tree_world_def)
  have tr: "truthy (resource big_tree)" by (simp add: truthy_def big_tree_def RESOURCE_TREE_def)
  have ad: "add \<lparr>items = full_stacks, capacity = 30\<rparr> ''wood'' ''Wood'' 1 =
              (False, \<lparr>items = full_stacks, capacity = 30\<rparr>)"
    by (simp add: add_def full_stacks_no_wood length_full_stacks)
  have d: "deplete (big_tree\<lparr>resource_amount := 2\<rparr>) = big_tree\<lparr>resource_amount := 2\<rparr>"
    by (simp add: deplete_def)
  have e: "try_interact ?g = ?g\<lparr>world := set_tile tree_world 0 0 (big_tree\<lparr>resource_amount := 2\<rparr>),
                                 player := carrying full_stacks\<rparr>"
    using try_interact_resource [OF ok pt gt tr]
    by (simp add: Let_def big_tree_def deplete_def ad RESOURCE_TREE_def)
  have g2: "get_tile (set_tile tree_world 0 0 (big_tree\<lparr>resource_amount := 2\<rparr>)) 0 0 =
              Some (big_tree\<lparr>resource_amount := 2\<rparr>)"
    by (simp add: get_tile_def in_bounds_def set_tile_def tree_world_def)
  have s: "stock \<lparr>items = full_stacks, capacity = 30\<rparr> ''wood'' = 0"
    by (simp add: stock_def full_stacks_no_wood)
  show ?thesis using gt by (simp add: e g2 s) (simp add: big_tree_def)
qed

subsection \<open>Crafting\<close>

lemma capitalize_wood: "capitalize ''wood'' = ''Wood''"
  by code_simp

lemma contents_update:
  "contents (iv\<lparr>items := AList.update k it (items iv)\<rparr>) =
     (contents iv)(k \<mapsto> (name it, amount it))"
  by (rule ext) (simp add: contents_def update_conv')

lemma contents_delete:
  "contents (iv\<lparr>items := AList.delete k (items iv)\<rparr>) = (contents iv)(k := None)"
  by (rule ext) (simp add: contents_def delete_conv')

lemma length_delete_present:
  "map_of al k = Some v \<Longrightarrow> length (AList.delete k al) < length al"
proof (induction al)
  case Nil
  then show ?case by simp
next
  case (Cons p al)
  show ?case
  proof (cases "fst p = k")
    case True
    then show ?thesis by (cases p) (simp add: AList.delete_eq less_Suc_eq_le)
  next
    case False
    then show ?thesis using Cons by (cases p) (auto simp add: AList.delete_eq)
  qed
qed

text \<open>
  Taking \<open>n\<close> units of a stack that holds more than \<open>n\<close> and adding them back leaves the
  inventory exactly as it was: both calls change the amount of the stack where it lies.
\<close>

lemma update_twice: "AList.update k v (AList.update k u al) = AList.update k v al"
  by (induction al) auto

lemma remove_then_add_partial:
  assumes it: "map_of (items iv) k = Some it" and more: "n < amount it"
  shows "snd (add (snd (remove iv k n)) k nm n) = iv"
proof -
  let ?it1 = "it\<lparr>amount := amount it - n\<rparr>"
  have r: "remove iv k n = (True, iv\<lparr>items := AList.update k ?it1 (items iv)\<rparr>)"
    using it more by (simp add: remove_def Let_def)
  have there: "map_of (AList.update k ?it1 (items iv)) k = Some ?it1"
    by (simp add: update_conv')
  have a: "add (iv\<lparr>items := AList.update k ?it1 (items iv)\<rparr>) k nm n =
     (True, iv\<lparr>items := AList.update k it (AList.update k ?it1 (items iv))\<rparr>)"
    using there by (simp add: add_def)
  have "AList.update k it (AList.update k ?it1 (items iv)) = items iv"
    using it by (simp add: update_twice update_triv)
  then show ?thesis by (simp add: r a)
qed

text \<open>
  Taking the whole of a stack and adding it back restores the contents when the new stack
  gets the name the old one carried and the stacks did not outnumber the capacity.
\<close>

lemma remove_then_add:
  assumes h: "has iv k n"
    and cap: "int (length (items iv)) \<le> capacity iv"
    and nm: "\<forall>it. map_of (items iv) k = Some it \<and> amount it = n \<longrightarrow> name it = nm"
  shows "contents (snd (add (snd (remove iv k n)) k nm n)) = contents iv \<and>
         capacity (snd (add (snd (remove iv k n)) k nm n)) = capacity iv"
proof -
  from h obtain it where it: "map_of (items iv) k = Some it" and ge: "n \<le> amount it"
    by (auto simp add: has_def split: option.splits)
  show ?thesis
  proof (cases "amount it = n")
    case True
    from nm it True have name: "name it = nm" by simp
    have c: "contents iv k = Some (nm, amount it)" by (simp add: contents_def it name)
    have r: "remove iv k n = (True, iv\<lparr>items := AList.delete k (items iv)\<rparr>)"
      using it True by (simp add: remove_def)
    have gone: "map_of (AList.delete k (items iv)) k = None" by (simp add: delete_conv')
    have room: "int (length (AList.delete k (items iv))) < capacity iv"
      using length_delete_present [OF it] cap by linarith
    have a: "add (iv\<lparr>items := AList.delete k (items iv)\<rparr>) k nm n =
       (True, iv\<lparr>items := AList.update k \<lparr>item_id = k, name = nm, amount = n\<rparr>
                              (AList.delete k (items iv))\<rparr>)"
      using gone room by (simp add: add_def)
    have "contents (iv\<lparr>items := AList.update k \<lparr>item_id = k, name = nm, amount = n\<rparr>
                              (AList.delete k (items iv))\<rparr>) = contents iv"
      using c True by (auto simp add: contents_def update_conv' delete_conv')
    then show ?thesis by (simp add: r a)
  next
    case False
    with ge have "n < amount it" by simp
    from remove_then_add_partial [OF it this] show ?thesis by simp
  qed
qed

lemma place_structure_fails: "\<not> fst (place_structure wd tx ty s) \<Longrightarrow> snd (place_structure wd tx ty s) = wd"
  by (auto simp add: place_structure_def split: option.splits if_splits)

lemma craft_structure_result:
  assumes f: "\<not> fst (craft_structure g [(k, n)] (consume [(k, n)] (inventory (player g))) s)"
  shows "snd (craft_structure g [(k, n)] (consume [(k, n)] (inventory (player g))) s) =
           g\<lparr>player := (player g)
               \<lparr>inventory := snd (add (snd (remove (inventory (player g)) k n)) k (capitalize k) n)\<rparr>\<rparr>"
proof -
  obtain tx ty where pt: "player_tile (player g) = (tx, ty)" by (cases "player_tile (player g)")
  obtain placed wd1 where ps: "place_structure (world g) tx ty s = (placed, wd1)"
    by (cases "place_structure (world g) tx ty s")
  from f have np: "\<not> placed" by (auto simp add: craft_structure_def pt ps)
  have "wd1 = world g" using np place_structure_fails [of "world g" tx ty s] by (simp add: ps)
  then show ?thesis
    using np by (simp add: craft_structure_def pt ps consume_def refund_def)
qed

text \<open>
  What a failing craft is: an unknown recipe or a failed \<^verbatim>\<open>has\<close> check, where nothing has been
  touched, or a structure recipe (which requires wood only) whose placement is refused.
\<close>

lemma craft_fails_cases:
  assumes f: "\<not> fst (craft g recipe_id)"
  obtains (same) "craft g recipe_id = (False, g)"
  | (refused) rc n where
      "map_of RECIPES recipe_id = Some rc" "requires rc = [(''wood'', n)]"
      "has (inventory (player g)) ''wood'' n"
      "snd (craft g recipe_id) =
         g\<lparr>player := (player g)
             \<lparr>inventory := snd (add (snd (remove (inventory (player g)) ''wood'' n))
                                    ''wood'' (capitalize ''wood'') n)\<rparr>\<rparr>"
proof (cases "map_of RECIPES recipe_id")
  case None
  then have "craft g recipe_id = (False, g)" by (simp add: craft_def)
  then show ?thesis by (rule same)
next
  case (Some rc)
  let ?iv = "inventory (player g)"
  show ?thesis
  proof (cases "list_all (\<lambda>(rid, amt). has ?iv rid amt) (requires rc)")
    case False
    then have "craft g recipe_id = (False, g)" by (simp add: craft_def Some)
    then show ?thesis by (rule same)
  next
    case checked: True
    from Some have "recipe_id \<in> {''wooden_spear'', ''campfire'', ''stone_axe'', ''wooden_shack''}"
      by (auto simp add: RECIPES_def split: if_splits)
    moreover have "recipe_id \<noteq> ''wooden_spear''" "recipe_id \<noteq> ''stone_axe''"
      using f Some checked by (auto simp add: craft_def Let_def)
    ultimately have "recipe_id = ''campfire'' \<or> recipe_id = ''wooden_shack''" by blast
    then obtain n s where rq: "requires rc = [(''wood'', n)]"
      and cr: "craft g recipe_id = craft_structure g [(''wood'', n)] (consume [(''wood'', n)] ?iv) s"
      using Some checked by (auto simp add: craft_def Let_def RECIPES_def)
    from checked rq have h: "has ?iv ''wood'' n" by simp
    from f cr have f1: "\<not> fst (craft_structure g [(''wood'', n)] (consume [(''wood'', n)] ?iv) s)"
      by simp
    have e: "snd (craft g recipe_id) =
         g\<lparr>player := (player g)
             \<lparr>inventory := snd (add (snd (remove ?iv ''wood'' n)) ''wood'' (capitalize ''wood'') n)\<rparr>\<rparr>"
      using craft_structure_result [OF f1] by (simp add: cr)
    show ?thesis by (rule refused [OF Some rq h e])
  qed
qed

text \<open>
  C1, as the code has it. A craft that fails for an unknown recipe, for insufficient
  materials, or for a refused placement that took no stack whole, leaves the whole session
  exactly as it was, whatever the inventory. When the refused placement did take a stack
  whole, the refund builds the stack anew through \<^verbatim>\<open>add\<close> under the name
  \<^verbatim>\<open>rid.capitalize()\<close>: then the world, the capacity and the contents of the inventory (for
  each id, the display name and the amount of its stack) are as they were, provided the
  stacks did not outnumber the capacity and the stack that was taken whole carried the
  capitalised id as its display name.
\<close>

theorem craft_failure_keeps_inventory:
  assumes f: "\<not> fst (craft g recipe_id)"
  shows "(\<not> whole_stack_taken g recipe_id \<longrightarrow> snd (craft g recipe_id) = g) \<and>
         (int (length (items (inventory (player g)))) \<le> capacity (inventory (player g)) \<and>
          (\<forall>rc k n it. map_of RECIPES recipe_id = Some rc \<and> (k, n) \<in> set (requires rc) \<and>
               map_of (items (inventory (player g))) k = Some it \<and> amount it = n \<longrightarrow>
               name it = capitalize k) \<longrightarrow>
          contents (inventory (player (snd (craft g recipe_id)))) = contents (inventory (player g)) \<and>
          capacity (inventory (player (snd (craft g recipe_id)))) = capacity (inventory (player g)) \<and>
          world (snd (craft g recipe_id)) = world g)"
proof -
  let ?iv = "inventory (player g)"
  from f show ?thesis
  proof (cases rule: craft_fails_cases)
    case same
    then show ?thesis by simp
  next
    case (refused rc n)
    from refused(3) obtain it where it: "map_of (items ?iv) ''wood'' = Some it"
      and ge: "n \<le> amount it"
      by (auto simp add: has_def split: option.splits)
    have st: "stock ?iv ''wood'' = amount it" by (simp add: stock_def it)
    have first: "snd (craft g recipe_id) = g" if "\<not> whole_stack_taken g recipe_id"
    proof -
      from that refused(1,2,3) st have "amount it \<noteq> n"
        by (auto simp add: whole_stack_taken_def)
      with ge have "n < amount it" by simp
      from remove_then_add_partial [OF it this] show ?thesis by (simp add: refused(4))
    qed
    have second:
      "contents (inventory (player (snd (craft g recipe_id)))) = contents ?iv \<and>
       capacity (inventory (player (snd (craft g recipe_id)))) = capacity ?iv \<and>
       world (snd (craft g recipe_id)) = world g"
      if cap: "int (length (items ?iv)) \<le> capacity ?iv"
        and nm: "\<forall>rc k n it. map_of RECIPES recipe_id = Some rc \<and> (k, n) \<in> set (requires rc) \<and>
                   map_of (items ?iv) k = Some it \<and> amount it = n \<longrightarrow> name it = capitalize k"
    proof -
      from nm refused(1,2) have nm1:
        "\<forall>it. map_of (items ?iv) ''wood'' = Some it \<and> amount it = n \<longrightarrow> name it = capitalize ''wood''"
        by simp
      from remove_then_add [OF refused(3) cap nm1] show ?thesis by (simp add: refused(4))
    qed
    from first second show ?thesis by blast
  qed
qed

text \<open>
  The theorem at a player who stands on a tile that already holds a campfire. With seven
  wood named \<^verbatim>\<open>'Timber'\<close> the craft fails, takes no stack whole, and the session is as it
  was. With five wood named \<^verbatim>\<open>'Wood'\<close> the craft fails, takes the stack whole, and the five
  wood are back.
\<close>

lemma craft_campfire_on_camp:
  "craft (session camp_world (carrying [wood_stack nm 5])) ''campfire'' =
     (False, session camp_world (carrying [wood_stack ''Wood'' 5]))"
proof -
  have pt: "player_tile (carrying [wood_stack nm 5]) = (0, 0)" by (rule player_tile_carrying)
  have ps: "place_structure camp_world 0 0 ''campfire'' = (False, camp_world)"
    by (simp add: place_structure_def get_tile_def in_bounds_def camp_world_def camp_tile_def truthy_def)
  have hs: "has \<lparr>items = [wood_stack nm 5], capacity = 30\<rparr> ''wood'' 5"
    by (simp add: has_def wood_stack_def)
  have cs: "consume [(''wood'', 5)] \<lparr>items = [wood_stack nm 5], capacity = 30\<rparr> = \<lparr>items = [], capacity = 30\<rparr>"
    by (simp add: consume_def remove_def wood_stack_def AList.delete_eq)
  have rf: "refund [(''wood'', 5)] \<lparr>items = [], capacity = 30\<rparr> =
              \<lparr>items = [wood_stack ''Wood'' 5], capacity = 30\<rparr>"
    by (simp add: refund_def add_def wood_stack_def capitalize_wood)
  have cst: "craft_structure (session camp_world (carrying [wood_stack nm 5])) [(''wood'', 5)]
               \<lparr>items = [], capacity = 30\<rparr> ''campfire'' =
             (False, session camp_world (carrying [wood_stack ''Wood'' 5]))"
    by (simp add: craft_structure_def pt ps rf) (simp add: session_def carrying_def)
  show ?thesis
    by (simp add: craft_def RECIPES_def hs cs cst)
qed

lemma craft_campfire_on_camp_fails:
  "\<not> fst (craft (session camp_world (carrying its)) ''campfire'')"
proof -
  have pt: "player_tile (carrying its) = (0, 0)" by (rule player_tile_carrying)
  have ps: "place_structure camp_world 0 0 ''campfire'' = (False, camp_world)"
    by (simp add: place_structure_def get_tile_def in_bounds_def camp_world_def camp_tile_def truthy_def)
  have "\<not> fst (craft_structure (session camp_world (carrying its)) req iv1 ''campfire'')" for req iv1
    by (simp add: craft_structure_def pt ps)
  then show ?thesis
    by (simp add: craft_def RECIPES_def Let_def)
qed

theorem craft_failure_keeps_inventory_witness:
  "\<not> fst (craft (session camp_world (carrying [wood_stack ''Timber'' 7])) ''campfire'') \<and>
   \<not> whole_stack_taken (session camp_world (carrying [wood_stack ''Timber'' 7])) ''campfire'' \<and>
   snd (craft (session camp_world (carrying [wood_stack ''Timber'' 7])) ''campfire'') =
     session camp_world (carrying [wood_stack ''Timber'' 7]) \<and>
   \<not> fst (craft (session camp_world (carrying [wood_stack ''Wood'' 5])) ''campfire'') \<and>
   whole_stack_taken (session camp_world (carrying [wood_stack ''Wood'' 5])) ''campfire'' \<and>
   int (length (items (inventory (carrying [wood_stack ''Wood'' 5])))) \<le>
     capacity (inventory (carrying [wood_stack ''Wood'' 5])) \<and>
   contents (inventory (carrying [wood_stack ''Wood'' 5])) ''wood'' = Some (''Wood'', 5) \<and>
   contents (inventory (player (snd (craft (session camp_world (carrying [wood_stack ''Wood'' 5]))
       ''campfire'')))) = contents (inventory (carrying [wood_stack ''Wood'' 5]))"
proof -
  let ?g7 = "session camp_world (carrying [wood_stack ''Timber'' 7])"
  let ?g = "session camp_world (carrying [wood_stack ''Wood'' 5])"
  have f7: "\<not> fst (craft ?g7 ''campfire'')" by (rule craft_campfire_on_camp_fails)
  have nw: "\<not> whole_stack_taken ?g7 ''campfire''"
    by (simp add: whole_stack_taken_def RECIPES_def stock_def wood_stack_def)
  have f: "\<not> fst (craft ?g ''campfire'')" by (rule craft_campfire_on_camp_fails)
  have w: "whole_stack_taken ?g ''campfire''"
    by (simp add: whole_stack_taken_def RECIPES_def stock_def has_def wood_stack_def)
  have cap: "int (length (items (inventory (player ?g)))) \<le> capacity (inventory (player ?g))"
    by simp
  have nm: "\<forall>rc k n it. map_of RECIPES ''campfire'' = Some rc \<and> (k, n) \<in> set (requires rc) \<and>
               map_of (items (inventory (player ?g))) k = Some it \<and> amount it = n \<longrightarrow>
               name it = capitalize k"
    by (auto simp add: RECIPES_def wood_stack_def capitalize_wood)
  have c: "contents (inventory (carrying [wood_stack ''Wood'' 5])) ''wood'' = Some (''Wood'', 5)"
    by (simp add: contents_def wood_stack_def)
  from craft_failure_keeps_inventory [OF f7] nw
  have a: "snd (craft ?g7 ''campfire'') = ?g7" by blast
  from craft_failure_keeps_inventory [OF f] cap nm
  have b: "contents (inventory (player (snd (craft ?g ''campfire'')))) = contents (inventory (player ?g))"
    by blast
  from f7 nw a f w c b show ?thesis by simp
qed

text \<open>
  The claim as written covers every inventory. A stack of five wood whose display name is
  \<^verbatim>\<open>'Timber'\<close> (as a snapshot may hold it) comes back from the failed craft under the name
  \<^verbatim>\<open>'Wood'\<close>: the refund builds a new stack and names it \<^verbatim>\<open>rid.capitalize()\<close>.
\<close>

theorem craft_refund_renames_counterexample:
  "\<not> fst (craft (session camp_world (carrying [wood_stack ''Timber'' 5])) ''campfire'') \<and>
   contents (inventory (player (session camp_world (carrying [wood_stack ''Timber'' 5])))) ''wood'' =
     Some (''Timber'', 5) \<and>
   contents (inventory (player (snd (craft (session camp_world (carrying [wood_stack ''Timber'' 5]))
       ''campfire'')))) ''wood'' = Some (''Wood'', 5)"
  by (simp add: craft_campfire_on_camp) (simp add: contents_def wood_stack_def)

text \<open>
  With more stacks than the capacity (thirty other stacks and five wood, as a snapshot may
  hold them), the refund of the wood that the craft took is refused and the wood is gone.
\<close>

lemma craft_refund_refused_over_capacity:
  "\<not> fst (craft (session camp_world (carrying (full_stacks @ [wood_stack ''Wood'' 5]))) ''campfire'') \<and>
   stock (inventory (carrying (full_stacks @ [wood_stack ''Wood'' 5]))) ''wood'' = 5 \<and>
   inventory (player (snd (craft (session camp_world (carrying (full_stacks @ [wood_stack ''Wood'' 5])))
       ''campfire''))) = \<lparr>items = full_stacks, capacity = 30\<rparr>"
proof -
  let ?its = "full_stacks @ [wood_stack ''Wood'' 5]"
  have mo: "map_of ?its ''wood'' = Some \<lparr>item_id = ''wood'', name = ''Wood'', amount = 5\<rparr>"
    by (simp add: map_add_def full_stacks_no_wood wood_stack_def)
  have nk: "''wood'' \<notin> fst ` set full_stacks"
    using full_stacks_no_wood by (simp add: map_of_eq_None_iff)
  have dl: "AList.delete ''wood'' ?its = full_stacks"
    using nk by (simp add: AList.delete_eq wood_stack_def) (simp add: AList.delete_eq [symmetric])
  have pt: "player_tile (carrying ?its) = (0, 0)" by (rule player_tile_carrying)
  have ps: "place_structure camp_world 0 0 ''campfire'' = (False, camp_world)"
    by (simp add: place_structure_def get_tile_def in_bounds_def camp_world_def camp_tile_def truthy_def)
  have hs: "has \<lparr>items = ?its, capacity = 30\<rparr> ''wood'' 5"
    by (simp add: has_def mo del: map_of_append)
  have cs: "consume [(''wood'', 5)] \<lparr>items = ?its, capacity = 30\<rparr> = \<lparr>items = full_stacks, capacity = 30\<rparr>"
    by (simp add: consume_def remove_def mo dl del: map_of_append)
  have rf: "refund [(''wood'', 5)] \<lparr>items = full_stacks, capacity = 30\<rparr> =
              \<lparr>items = full_stacks, capacity = 30\<rparr>"
    by (simp add: refund_def add_def full_stacks_no_wood length_full_stacks)
  have cst: "craft_structure (session camp_world (carrying ?its)) [(''wood'', 5)]
               \<lparr>items = full_stacks, capacity = 30\<rparr> ''campfire'' =
             (False, session camp_world (carrying full_stacks))"
    by (simp add: craft_structure_def pt ps rf) (simp add: session_def carrying_def)
  have cr: "craft (session camp_world (carrying ?its)) ''campfire'' =
              (False, session camp_world (carrying full_stacks))"
    by (simp add: craft_def RECIPES_def hs cs cst)
  show ?thesis by (simp add: cr stock_def mo del: map_of_append)
qed

subsection \<open>The creature state machine\<close>

lemma hypot_eq_0_iff: "hypot a b = 0 \<longleftrightarrow> a = 0 \<and> b = 0"
  by (simp add: hypot_def sum_power2_eq_zero_iff)

lemma hypot_nonneg: "0 \<le> hypot a b"
  by (simp add: hypot_def)

lemma roam_step_position [simp]:
  "ent_x (fst (roam_step e r)) = ent_x e" "ent_y (fst (roam_step e r)) = ent_y e"
  by (simp_all add: roam_step_def Let_def)

lemma roam_step_keeps [simp]:
  "ent_speed (fst (roam_step e r)) = ent_speed e" "ent_health (fst (roam_step e r)) = ent_health e"
  by (simp_all add: roam_step_def Let_def)

lemma evaluate_raises_iff:
  "evaluate p e r = Inl err \<longleftrightarrow>
     (err = ZeroDivisionError \<and> ent_x e = player_x p \<and> ent_y e = player_y p)"
proof -
  obtain e1 r1 where rs: "roam_step e r = (e1, r1)" by (cases "roam_step e r")
  have pos: "ent_x e1 = ent_x e" "ent_y e1 = ent_y e"
    using roam_step_position [of e r] by (simp_all add: rs)
  have z: "hypot (player_x p - ent_x e) (player_y p - ent_y e) = 0 \<longleftrightarrow>
             (ent_x e = player_x p \<and> ent_y e = player_y p)"
    by (auto simp add: hypot_eq_0_iff)
  show ?thesis
    using z by (auto simp add: evaluate_def rs pursue_step_def pos Let_def split: sum.splits)
qed

lemma entity_update_raises_iff:
  "entity_update dt wd p e r = Inl err \<longleftrightarrow>
     (err = ZeroDivisionError \<and> ent_x e = player_x p \<and> ent_y e = player_y p)"
  using evaluate_raises_iff [of p e r err]
  by (auto simp add: entity_update_def split: sum.splits)

text \<open>
  C9. \<^verbatim>\<open>Entity.update\<close> raises \<^verbatim>\<open>ZeroDivisionError\<close> exactly when the entity stands at the
  player's position, where the distance it divides by is zero; at every other position,
  so at every strictly positive distance, it returns a successor state.
\<close>

theorem entity_update_total_off_player:
  "(ent_x e = player_x p \<and> ent_y e = player_y p \<longrightarrow>
      hypot (player_x p - ent_x e) (player_y p - ent_y e) = 0 \<and>
      entity_update dt wd p e r = Inl ZeroDivisionError) \<and>
   (0 < hypot (player_x p - ent_x e) (player_y p - ent_y e) \<longrightarrow>
      (\<exists>e1 r1. entity_update dt wd p e r = Inr (e1, r1)))"
proof (intro conjI impI)
  assume a: "ent_x e = player_x p \<and> ent_y e = player_y p"
  then show "hypot (player_x p - ent_x e) (player_y p - ent_y e) = 0"
    by (simp add: hypot_eq_0_iff)
  from a show "entity_update dt wd p e r = Inl ZeroDivisionError"
    by (simp add: entity_update_raises_iff)
next
  assume "0 < hypot (player_x p - ent_x e) (player_y p - ent_y e)"
  then have "hypot (player_x p - ent_x e) (player_y p - ent_y e) \<noteq> 0" by simp
  then have "\<not> (ent_x e = player_x p \<and> ent_y e = player_y p)"
    by (auto simp add: hypot_eq_0_iff)
  then have "\<forall>err. entity_update dt wd p e r \<noteq> Inl err"
    by (simp add: entity_update_raises_iff)
  then show "\<exists>e1 r1. entity_update dt wd p e r = Inr (e1, r1)"
    by (cases "entity_update dt wd p e r") auto
qed

lemma hypot_3_4: "hypot 3 4 = 5"
proof -
  have "hypot 3 4 = sqrt (5\<^sup>2)" by (simp add: hypot_def)
  then show ?thesis by simp
qed

text \<open>
  The theorem at the player \<open>Player0 3 4\<close>: an entity at the same place cannot be updated,
  an entity at the origin, 5 units away, can.
\<close>

theorem entity_update_total_off_player_witness:
  "entity_update (1 / 60) small_world (Player0 3 4) (Entity0 3 4) (sconst (1 / 2)) =
     Inl ZeroDivisionError \<and>
   0 < hypot (player_x (Player0 3 4) - ent_x (Entity0 0 0)) (player_y (Player0 3 4) - ent_y (Entity0 0 0)) \<and>
   (\<exists>e1 r1. entity_update (1 / 60) small_world (Player0 3 4) (Entity0 0 0) (sconst (1 / 2)) =
      Inr (e1, r1))"
proof -
  have same: "ent_x (Entity0 3 4) = player_x (Player0 3 4) \<and> ent_y (Entity0 3 4) = player_y (Player0 3 4)"
    by (simp add: Entity0_def Player0_def)
  have far: "0 < hypot (player_x (Player0 3 4) - ent_x (Entity0 0 0))
                       (player_y (Player0 3 4) - ent_y (Entity0 0 0))"
    by (simp add: Entity0_def Player0_def hypot_3_4)
  from entity_update_total_off_player [of "Entity0 3 4" "Player0 3 4" "1 / 60" small_world "sconst (1 / 2)"]
    same
  have a: "entity_update (1 / 60) small_world (Player0 3 4) (Entity0 3 4) (sconst (1 / 2)) =
             Inl ZeroDivisionError"
    by blast
  from entity_update_total_off_player [of "Entity0 0 0" "Player0 3 4" "1 / 60" small_world "sconst (1 / 2)"]
    far
  have b: "\<exists>e1 r1. entity_update (1 / 60) small_world (Player0 3 4) (Entity0 0 0) (sconst (1 / 2)) =
             Inr (e1, r1)"
    by blast
  from a far b show ?thesis by blast
qed

text \<open>
  The proximity rule away from the player's own position: an entity at a distance strictly
  between 0 and 150 leaves the evaluation in state \<^verbatim>\<open>'attack'\<close>, its velocity the unit vector
  towards the player times 1.2 times its speed, unless the flee rule fires after it.
\<close>

lemma attack_when_near:
  assumes pos: "0 < hypot (player_x p - ent_x e) (player_y p - ent_y e)"
    and near: "hypot (player_x p - ent_x e) (player_y p - ent_y e) < 150"
    and nf: "\<not> flee_fires e (snd (roam_step e r))"
  shows "\<exists>e1 r1. evaluate p e r = Inr (e1, r1) \<and> ent_state e1 = ''attack'' \<and>
           ent_vx e1 = ((player_x p - ent_x e) / hypot (player_x p - ent_x e) (player_y p - ent_y e))
                         * (ent_speed e * 1.2) \<and>
           ent_vy e1 = ((player_y p - ent_y e) / hypot (player_x p - ent_x e) (player_y p - ent_y e))
                         * (ent_speed e * 1.2)"
proof -
  obtain e0 r0 where rs: "roam_step e r = (e0, r0)" by (cases "roam_step e r")
  have k: "ent_x e0 = ent_x e" "ent_y e0 = ent_y e" "ent_speed e0 = ent_speed e"
          "ent_health e0 = ent_health e"
    using roam_step_position [of e r] roam_step_keeps [of e r] by (simp_all add: rs)
  from nf have nf': "\<not> (ent_health e < 20 \<and> shd r0 < 0.3)" by (simp add: flee_fires_def rs)
  show ?thesis
    using pos near nf'
    by (auto simp add: evaluate_def rs pursue_step_def flee_step_def k Let_def)
qed

text \<open>
  C7 at the input where the code departs from it: the entity stands where the player
  stands, the distance 0 is below 150, and the evaluation raises \<^verbatim>\<open>ZeroDivisionError\<close>
  instead of leaving the entity in state \<^verbatim>\<open>'attack'\<close>.
\<close>

theorem attack_rule_raises_at_distance_zero:
  "hypot (player_x (Player0 0 0) - ent_x (Entity0 0 0)) (player_y (Player0 0 0) - ent_y (Entity0 0 0)) < 150 \<and>
   evaluate (Player0 0 0) (Entity0 0 0) (sconst (1 / 2)) = Inl ZeroDivisionError \<and>
   entity_update (1 / 60) small_world (Player0 0 0) (Entity0 0 0) (sconst (1 / 2)) = Inl ZeroDivisionError"
  by (simp add: evaluate_raises_iff entity_update_raises_iff)
     (simp add: Entity0_def Player0_def hypot_def)

subsection \<open>Movement and stamina\<close>

lemma moving_iff: "moving ks \<longleftrightarrow> (K_a ks \<noteq> K_d ks \<or> K_w ks \<noteq> K_s ks)"
proof -
  have "moving ks \<longleftrightarrow> hypot (intent_x ks) (intent_y ks) \<noteq> 0"
    using hypot_nonneg [of "intent_x ks" "intent_y ks"] by (auto simp add: moving_def)
  then show ?thesis
    by (auto simp add: hypot_eq_0_iff intent_x_def intent_y_def)
qed

lemma update_player_unfold:
  "update_player dt ks wd p =
     (let speed = (if sprinting ks p then 160 * 1.8 else 160);
          p1 = (if sprinting ks p then p\<lparr>stamina := stamina p - dt * 10\<rparr> else p);
          p2 = (if moving ks then
                  p1\<lparr>player_x := player_x p1 + (intent_x ks / hypot (intent_x ks) (intent_y ks)) * speed * dt,
                     player_y := player_y p1 + (intent_y ks / hypot (intent_x ks) (intent_y ks)) * speed * dt,
                     stamina := max 0 (stamina p1 - dt * 7)\<rparr>
                else p1)
      in p2\<lparr>player_x := clamp (player_x p2) 0 (real_of_int (world_w wd * TILE_SIZE - 1)),
            player_y := clamp (player_y p2) 0 (real_of_int (world_h wd * TILE_SIZE - 1))\<rparr>)"
  by (simp add: update_player_def Let_def moving_def sprinting_def intent_x_def intent_y_def)

subsection \<open>Vital statistics over ticks\<close>

lemma update_player_keeps [simp]:
  "health (update_player dt ks wd p) = health p"
  "hunger (update_player dt ks wd p) = hunger p"
  "thirst (update_player dt ks wd p) = thirst p"
  by (simp_all add: update_player_def Let_def)

lemma update_player_stamina_le:
  assumes "0 \<le> dt" "stamina p \<le> MAX_STAMINA"
  shows "stamina (update_player dt ks wd p) \<le> MAX_STAMINA"
proof -
  have "0 \<le> dt * 10" "0 \<le> dt * 7" using assms(1) by simp_all
  then show ?thesis
    using assms(2) by (auto simp add: update_player_unfold Let_def MAX_STAMINA_def)
qed

lemma update_player_stamina_ge:
  assumes "dt \<le> 1 / 10" "0 \<le> stamina p"
  shows "0 \<le> stamina (update_player dt ks wd p)"
proof -
  have "stamina p - dt * 10 \<ge> 0" if "stamina p > 1"
    using that assms(1) by simp
  then show ?thesis
    using assms(2) by (auto simp add: update_player_unfold Let_def sprinting_def)
qed

lemma update_entities_player:
  assumes "update_entities dt wd es p ps r = Inr (es1, p1, ps1, r1)" and "0 \<le> dt"
  shows "health p1 \<le> health p \<and> hunger p1 = hunger p \<and> thirst p1 = thirst p \<and>
         stamina p1 = stamina p"
  using assms
proof (induction es arbitrary: p ps r es1)
  case Nil
  then show ?case by simp
next
  case (Cons e es)
  from Cons.prems(1) obtain e1 r0 where eu: "entity_update dt wd p e r = Inr (e1, r0)"
    by (auto split: sum.splits)
  define p0 where "p0 = (if hypot (ent_x e1 - player_x p) (ent_y e1 - player_y p) < 20
                         then p\<lparr>health := health p - 5 * dt\<rparr> else p)"
  define ps0 where "ps0 = (if hypot (ent_x e1 - player_x p) (ent_y e1 - player_y p) < 20 \<and> health p0 \<le> 0
                           then True else ps)"
  from Cons.prems(1) obtain es2 where rest: "update_entities dt wd es p0 ps0 r0 = Inr (es2, p1, ps1, r1)"
    by (auto simp add: eu Let_def p0_def ps0_def split: sum.splits)
  have step: "health p0 \<le> health p \<and> hunger p0 = hunger p \<and> thirst p0 = thirst p \<and>
              stamina p0 = stamina p"
    using Cons.prems(2) by (simp add: p0_def)
  from Cons.IH [OF rest Cons.prems(2)] step show ?case by simp
qed

lemma update_Inr:
  assumes "update dt ks g = Inr g1"
  obtains es p2 ps r2 where
    "update_entities dt (world g) (entities g) (update_player dt ks (world g) (player g))
       (paused g) (snd (weather_step (weather g) (rng g))) = Inr (es, p2, ps, r2)"
    "g1 = g\<lparr>time_of_day := fmod (time_of_day g + dt) DAY_LENGTH,
           weather := fst (weather_step (weather g) (rng g)), player := decay dt p2,
           entities := es, paused := ps, rng := r2,
           camera_x := player_x (decay dt p2), camera_y := player_y (decay dt p2)\<rparr>"
  using assms
  by (auto simp add: update_def Let_def split: sum.splits prod.splits)

lemma decay_vitals:
  "hunger (decay dt p) = hunger p + dt * 0.5"
  "thirst (decay dt p) = thirst p + dt * 0.9"
  "0 \<le> dt \<Longrightarrow> health (decay dt p) \<le> health p"
  "stamina p \<le> MAX_STAMINA \<Longrightarrow> stamina (decay dt p) \<le> MAX_STAMINA"
  "0 \<le> dt \<Longrightarrow> 0 \<le> stamina p \<Longrightarrow> 0 \<le> stamina (decay dt p)"
  by (simp_all add: decay_def Let_def MAX_STAMINA_def)

lemma update_vitals:
  assumes u: "update dt ks g = Inr g1" and dt: "0 \<le> dt"
  shows "health (player g1) \<le> health (player g)"
    and "hunger (player g1) = hunger (player g) + dt * 0.5"
    and "thirst (player g1) = thirst (player g) + dt * 0.9"
    and "stamina (player g) \<le> MAX_STAMINA \<Longrightarrow> stamina (player g1) \<le> MAX_STAMINA"
    and "dt \<le> 1 / 10 \<Longrightarrow> 0 \<le> stamina (player g) \<Longrightarrow> 0 \<le> stamina (player g1)"
proof -
  from u obtain es p2 ps r2 where
    ue: "update_entities dt (world g) (entities g) (update_player dt ks (world g) (player g))
           (paused g) (snd (weather_step (weather g) (rng g))) = Inr (es, p2, ps, r2)"
    and pl: "player g1 = decay dt p2"
    by (auto elim!: update_Inr)
  note k = update_entities_player [OF ue dt]
  show "health (player g1) \<le> health (player g)"
    using k decay_vitals(3) [OF dt, of p2] by (simp add: pl)
  show "hunger (player g1) = hunger (player g) + dt * 0.5"
    using k by (simp add: pl decay_vitals)
  show "thirst (player g1) = thirst (player g) + dt * 0.9"
    using k by (simp add: pl decay_vitals)
  show "stamina (player g1) \<le> MAX_STAMINA" if "stamina (player g) \<le> MAX_STAMINA"
    using update_player_stamina_le [OF dt that, of ks "world g"] k
    by (simp add: pl decay_vitals)
  show "0 \<le> stamina (player g1)" if "dt \<le> 1 / 10" "0 \<le> stamina (player g)"
    using update_player_stamina_ge [OF that, of ks "world g"] k dt
    by (simp add: pl decay_vitals)
qed

text \<open>
  C3, as the code has it. Over any sequence of ticks with elapsed times that are not
  negative, health stays at or below \<open>MAX_HEALTH\<close>, stamina stays at or below
  \<open>MAX_STAMINA\<close>, and hunger and thirst stay at or above 0; stamina stays at or above 0 as
  long as no tick is longer than a tenth of a second. (Nothing in the tick keeps health
  above 0 or hunger and thirst below their maxima.)
\<close>

theorem vital_bounds_kept:
  assumes run: "run_ticks ins g = Inr g1"
    and dts: "\<forall>tick \<in> set ins. 0 \<le> fst tick"
    and h: "health (player g) \<le> MAX_HEALTH"
    and s: "stamina (player g) \<le> MAX_STAMINA"
    and hu: "0 \<le> hunger (player g)"
    and th: "0 \<le> thirst (player g)"
  shows "health (player g1) \<le> MAX_HEALTH \<and> stamina (player g1) \<le> MAX_STAMINA \<and>
         0 \<le> hunger (player g1) \<and> 0 \<le> thirst (player g1) \<and>
         ((\<forall>tick \<in> set ins. fst tick \<le> 1 / 10) \<and> 0 \<le> stamina (player g) \<longrightarrow>
            0 \<le> stamina (player g1))"
  using assms
proof (induction ins arbitrary: g)
  case Nil
  then show ?case by simp
next
  case (Cons tick rest)
  obtain dt ks where tk: "tick = (dt, ks)" by (cases tick)
  from Cons.prems(2) have dt: "0 \<le> dt" and dts': "\<forall>tick \<in> set rest. 0 \<le> fst tick"
    by (simp_all add: tk)
  show ?case
  proof (cases "paused g")
    case True
    with Cons.prems(1) have "run_ticks rest g = Inr g1" by (simp add: tk)
    from Cons.IH [OF this dts' Cons.prems(3-6)] show ?thesis by simp
  next
    case False
    with Cons.prems(1) obtain g0 where u: "update dt ks g = Inr g0" and r: "run_ticks rest g0 = Inr g1"
      by (auto simp add: tk split: sum.splits)
    note v = update_vitals [OF u dt]
    have h0: "health (player g0) \<le> MAX_HEALTH" using v(1) Cons.prems(3) by simp
    have s0: "stamina (player g0) \<le> MAX_STAMINA" using v(4) Cons.prems(4) by simp
    have hu0: "0 \<le> hunger (player g0)" using v(2) Cons.prems(5) dt by simp
    have th0: "0 \<le> thirst (player g0)" using v(3) Cons.prems(6) dt by simp
    from Cons.IH [OF r dts' h0 s0 hu0 th0] v(5) show ?thesis by (simp add: tk)
  qed
qed

text \<open>
  The theorem on two idle ticks of a sixtieth of a second, with a creature 500 units away.
\<close>

lemma hypot_300_400: "hypot 300 400 = 500" "hypot (- 300) (- 400) = 500"
proof -
  have "hypot 300 400 = sqrt (500\<^sup>2)" by (simp add: hypot_def)
  then show "hypot 300 400 = 500" by simp
  have "hypot (- 300) (- 400) = sqrt (500\<^sup>2)" by (simp add: hypot_def)
  then show "hypot (- 300) (- 400) = 500" by simp
qed

lemma update_player_idle:
  assumes "player_x p = 0" "player_y p = 0"
  shows "update_player dt no_keys tree_world p = p"
proof -
  have "\<not> moving no_keys" by (simp add: moving_iff no_keys_def)
  moreover have "\<not> sprinting no_keys p" by (simp add: sprinting_def no_keys_def)
  ultimately show ?thesis
    using assms
    by (simp add: update_player_unfold Let_def) (simp add: clamp_def tree_world_def TILE_SIZE_def)
qed

lemma entity_update_far:
  assumes "player_x p = 0" "player_y p = 0"
  shows "entity_update dt wd p (Entity0 300 400) (sconst (1 / 2)) =
           Inr (Entity0 300 400, sconst (1 / 2))"
proof -
  have rs: "roam_step (Entity0 300 400) (sconst (1 / 2)) = (Entity0 300 400, sconst (1 / 2))"
    by (simp add: roam_step_def Entity0_def)
  have pu: "pursue_step p (Entity0 300 400) = Inr (Entity0 300 400)"
    using assms by (simp add: pursue_step_def Let_def Entity0_def hypot_300_400)
  have fl: "flee_step p (Entity0 300 400) (sconst (1 / 2)) = (Entity0 300 400, sconst (1 / 2))"
    by (simp add: flee_step_def Entity0_def)
  show ?thesis
    by (simp add: entity_update_def evaluate_def rs pu fl) (simp add: integrate_def Entity0_def)
qed

lemma decay_position [simp]:
  "player_x (decay dt p) = player_x p" "player_y (decay dt p) = player_y p"
  by (simp_all add: decay_def Let_def)

lemma far_idle_tick:
  assumes "far_idle g"
  shows "\<exists>g1. update dt no_keys g = Inr g1 \<and> far_idle g1"
proof -
  from assms have a: "world g = tree_world" "entities g = [Entity0 300 400]"
    "rng g = sconst (1 / 2)" "\<not> paused g" "player_x (player g) = 0" "player_y (player g) = 0"
    by (simp_all add: far_idle_def)
  have ws: "weather_step (weather g) (sconst (1 / 2)) = (weather g, sconst (1 / 2))"
    by (simp add: weather_step_def)
  have up: "update_player dt no_keys tree_world (player g) = player g"
    using a(5,6) by (rule update_player_idle)
  have ue: "update_entities dt tree_world [Entity0 300 400] (player g) False (sconst (1 / 2)) =
              Inr ([Entity0 300 400], player g, False, sconst (1 / 2))"
    using a(5,6)
    by (simp add: entity_update_far Let_def) (simp add: Entity0_def hypot_300_400)
  have pf: "paused g = False" using a(4) by simp
  have "update dt no_keys g =
          Inr (g\<lparr>time_of_day := fmod (time_of_day g + dt) DAY_LENGTH, weather := weather g,
                 player := decay dt (player g), entities := [Entity0 300 400], paused := False,
                 rng := sconst (1 / 2), camera_x := player_x (decay dt (player g)),
                 camera_y := player_y (decay dt (player g))\<rparr>)"
    by (simp only: update_def a(1) a(2) a(3) pf ws up ue Let_def prod.case sum.case)
  then show ?thesis
    using a by (simp add: far_idle_def)
qed

theorem vital_bounds_kept_witness:
  "\<not> isl (run_ticks [(1 / 60, no_keys), (1 / 60, no_keys)] far_session) \<and>
   health (player far_session) \<le> MAX_HEALTH \<and> stamina (player far_session) \<le> MAX_STAMINA \<and>
   0 \<le> hunger (player far_session) \<and> 0 \<le> thirst (player far_session) \<and>
   health (player (projr (run_ticks [(1 / 60, no_keys), (1 / 60, no_keys)] far_session))) \<le> MAX_HEALTH \<and>
   stamina (player (projr (run_ticks [(1 / 60, no_keys), (1 / 60, no_keys)] far_session))) \<le> MAX_STAMINA \<and>
   0 \<le> hunger (player (projr (run_ticks [(1 / 60, no_keys), (1 / 60, no_keys)] far_session))) \<and>
   0 \<le> thirst (player (projr (run_ticks [(1 / 60, no_keys), (1 / 60, no_keys)] far_session))) \<and>
   0 \<le> stamina (player (projr (run_ticks [(1 / 60, no_keys), (1 / 60, no_keys)] far_session)))"
proof -
  let ?ins = "[(1 / 60, no_keys), (1 / 60, no_keys)] :: (real \<times> keys) list"
  have f0: "far_idle far_session"
    by (simp add: far_idle_def far_session_def session_def Player0_def)
  from far_idle_tick [OF f0] obtain g1 where
    u1: "update (1 / 60) no_keys far_session = Inr g1" and f1: "far_idle g1" by blast
  from far_idle_tick [OF f1] obtain g2 where
    u2: "update (1 / 60) no_keys g1 = Inr g2" by blast
  have np: "\<not> paused far_session" "\<not> paused g1" using f0 f1 by (simp_all add: far_idle_def)
  have run: "run_ticks ?ins far_session = Inr g2" by (simp add: np u1 u2)
  have dts: "\<forall>tick \<in> set ?ins. 0 \<le> fst tick" by simp
  have short: "\<forall>tick \<in> set ?ins. fst tick \<le> 1 / 10" by simp
  have h: "health (player far_session) \<le> MAX_HEALTH"
    and s: "stamina (player far_session) \<le> MAX_STAMINA"
    and hu: "0 \<le> hunger (player far_session)"
    and th: "0 \<le> thirst (player far_session)"
    and st: "0 \<le> stamina (player far_session)"
    by (simp_all add: far_session_def session_def Player0_def MAX_STAMINA_def)
  from vital_bounds_kept [OF run dts h s hu th] short st h s hu th
  show ?thesis unfolding run by simp
qed

text \<open>
  The claim as written keeps hunger at or below its maximum. A fresh player who stands
  still for 12060 ticks of a sixtieth of a second (201 seconds) has hunger 100.5: nothing in
  the tick bounds hunger.
\<close>

lemma update_no_entities:
  assumes "entities g = []"
  shows "\<exists>g1. update dt ks g = Inr g1 \<and> entities g1 = [] \<and> paused g1 = paused g \<and>
              hunger (player g1) = hunger (player g) + dt * 0.5 \<and>
              thirst (player g1) = thirst (player g) + dt * 0.9 \<and>
              health (player g1) = health (player g)
                 - (if hunger (player g) + dt * 0.5 > 80 then dt * 0.5 else 0)
                 - (if thirst (player g) + dt * 0.9 > 90 then dt else 0)"
  using assms
  by (simp add: update_def Let_def split_beta) (simp add: decay_def Let_def)

lemma idle_ticks:
  assumes "entities g = []" "\<not> paused g"
  shows "\<exists>g1. run_ticks (replicate n (dt, ks)) g = Inr g1 \<and> entities g1 = [] \<and> \<not> paused g1 \<and>
              hunger (player g1) = hunger (player g) + real n * (dt * 0.5) \<and>
              thirst (player g1) = thirst (player g) + real n * (dt * 0.9)"
  using assms
proof (induction n arbitrary: g)
  case 0
  then show ?case by simp
next
  case (Suc n)
  from update_no_entities [OF Suc.prems(1), of dt ks] obtain g0 where
    u: "update dt ks g = Inr g0" and e: "entities g0 = []" and p: "paused g0 = paused g"
    and hu: "hunger (player g0) = hunger (player g) + dt * 0.5"
    and th: "thirst (player g0) = thirst (player g) + dt * 0.9"
    by blast
  from p Suc.prems(2) have np: "\<not> paused g0" by simp
  from Suc.IH [OF e np] obtain g1 where
    r: "run_ticks (replicate n (dt, ks)) g0 = Inr g1" and e1: "entities g1 = []" and p1: "\<not> paused g1"
    and hu1: "hunger (player g1) = hunger (player g0) + real n * (dt * 0.5)"
    and th1: "thirst (player g1) = thirst (player g0) + real n * (dt * 0.9)"
    by blast
  have "run_ticks (replicate (Suc n) (dt, ks)) g = Inr g1"
    using Suc.prems(2) u r by simp
  moreover have "hunger (player g1) = hunger (player g) + real (Suc n) * (dt * 0.5)"
    using hu hu1 by (simp add: algebra_simps)
  moreover have "thirst (player g1) = thirst (player g) + real (Suc n) * (dt * 0.9)"
    using th th1 by (simp add: algebra_simps)
  ultimately show ?case using e1 p1 by blast
qed

theorem hunger_exceeds_maximum_counterexample:
  "\<not> isl (run_ticks (replicate 12060 (1 / 60, no_keys)) lone_session) \<and>
   hunger (player lone_session) = 0 \<and>
   MAX_HUNGER < hunger (player (projr (run_ticks (replicate 12060 (1 / 60, no_keys)) lone_session))) \<and>
   MAX_THIRST < thirst (player (projr (run_ticks (replicate 12060 (1 / 60, no_keys)) lone_session)))"
proof -
  have e: "entities lone_session = []" and p: "\<not> paused lone_session"
    and h0: "hunger (player lone_session) = 0" and t0: "thirst (player lone_session) = 0"
    by (simp_all add: lone_session_def session_def Player0_def)
  from idle_ticks [OF e p, of 12060 "1 / 60" no_keys] obtain g1 where
    r: "run_ticks (replicate 12060 (1 / 60, no_keys)) lone_session = Inr g1"
    and hu: "hunger (player g1) = hunger (player lone_session) + real 12060 * (1 / 60 * 0.5)"
    and th: "thirst (player g1) = thirst (player lone_session) + real 12060 * (1 / 60 * 0.9)"
    by blast
  show ?thesis
    unfolding r using hu th by (simp add: h0 t0 MAX_HUNGER_def MAX_THIRST_def)
qed

text \<open>
  Nor does the tick keep health at or above 0: thirst passes 90 after 101 idle seconds, and
  another 101 seconds of the thirst penalty take a fresh player's health below 0.
\<close>

lemma run_ticks_append:
  "run_ticks (xs @ ys) g = (case run_ticks xs g of Inl err \<Rightarrow> Inl err | Inr g1 \<Rightarrow> run_ticks ys g1)"
  by (induction xs g rule: run_ticks.induct) (auto split: sum.splits)

lemma idle_ticks_health:
  assumes "entities g = []" "\<not> paused g" "0 \<le> dt"
  shows "\<exists>g1. run_ticks (replicate n (dt, ks)) g = Inr g1 \<and> health (player g1) \<le> health (player g)"
  using assms
proof (induction n arbitrary: g)
  case 0
  then show ?case by simp
next
  case (Suc n)
  from update_no_entities [OF Suc.prems(1), of dt ks] obtain g0 where
    u: "update dt ks g = Inr g0" and e: "entities g0 = []" and p: "paused g0 = paused g"
    and he: "health (player g0) = health (player g)
                 - (if hunger (player g) + dt * 0.5 > 80 then dt * 0.5 else 0)
                 - (if thirst (player g) + dt * 0.9 > 90 then dt else 0)"
    by blast
  from he Suc.prems(3) have le: "health (player g0) \<le> health (player g)" by simp
  from p Suc.prems(2) have np: "\<not> paused g0" by simp
  from Suc.IH [OF e np Suc.prems(3)] obtain g1 where
    r: "run_ticks (replicate n (dt, ks)) g0 = Inr g1" and h1: "health (player g1) \<le> health (player g0)"
    by blast
  have "run_ticks (replicate (Suc n) (dt, ks)) g = Inr g1" using Suc.prems(2) u r by simp
  then show ?case using h1 le by auto
qed

lemma idle_ticks_thirsty:
  assumes "entities g = []" "\<not> paused g" "0 < dt" "90 \<le> thirst (player g)"
  shows "\<exists>g1. run_ticks (replicate n (dt, ks)) g = Inr g1 \<and>
              health (player g1) \<le> health (player g) - real n * dt"
  using assms
proof (induction n arbitrary: g)
  case 0
  then show ?case by simp
next
  case (Suc n)
  from update_no_entities [OF Suc.prems(1), of dt ks] obtain g0 where
    u: "update dt ks g = Inr g0" and e: "entities g0 = []" and p: "paused g0 = paused g"
    and th: "thirst (player g0) = thirst (player g) + dt * 0.9"
    and he: "health (player g0) = health (player g)
                 - (if hunger (player g) + dt * 0.5 > 80 then dt * 0.5 else 0)
                 - (if thirst (player g) + dt * 0.9 > 90 then dt else 0)"
    by blast
  from he Suc.prems(3,4) have le: "health (player g0) \<le> health (player g) - dt" by simp
  from th Suc.prems(3,4) have th0: "90 \<le> thirst (player g0)" by simp
  from p Suc.prems(2) have np: "\<not> paused g0" by simp
  from Suc.IH [OF e np Suc.prems(3) th0] obtain g1 where
    r: "run_ticks (replicate n (dt, ks)) g0 = Inr g1"
    and h1: "health (player g1) \<le> health (player g0) - real n * dt"
    by blast
  have "run_ticks (replicate (Suc n) (dt, ks)) g = Inr g1" using Suc.prems(2) u r by simp
  moreover have "health (player g1) \<le> health (player g) - real (Suc n) * dt"
    using h1 le by (simp add: algebra_simps)
  ultimately show ?case by blast
qed

lemma health_drops_below_zero:
  "\<not> isl (run_ticks (replicate 6060 (1 / 60, no_keys) @ replicate 6060 (1 / 60, no_keys)) lone_session) \<and>
   health (player lone_session) = MAX_HEALTH \<and>
   health (player (projr (run_ticks
      (replicate 6060 (1 / 60, no_keys) @ replicate 6060 (1 / 60, no_keys)) lone_session))) < 0"
proof -
  have e: "entities lone_session = []" and p: "\<not> paused lone_session"
    and h0: "health (player lone_session) = MAX_HEALTH" and t0: "thirst (player lone_session) = 0"
    by (simp_all add: lone_session_def session_def Player0_def)
  from idle_ticks [OF e p, of 6060 "1 / 60" no_keys] obtain g1 where
    r1: "run_ticks (replicate 6060 (1 / 60, no_keys)) lone_session = Inr g1"
    and e1: "entities g1 = []" and p1: "\<not> paused g1"
    and th: "thirst (player g1) = thirst (player lone_session) + real 6060 * (1 / 60 * 0.9)"
    by blast
  from idle_ticks_health [OF e p, of "1 / 60" 6060 no_keys] r1
  have h1: "health (player g1) \<le> MAX_HEALTH" by (simp add: h0)
  have th1: "90 \<le> thirst (player g1)" using th by (simp add: t0)
  from idle_ticks_thirsty [OF e1 p1 _ th1, of "1 / 60" 6060 no_keys] obtain g2 where
    r2: "run_ticks (replicate 6060 (1 / 60, no_keys)) g1 = Inr g2"
    and h2: "health (player g2) \<le> health (player g1) - real 6060 * (1 / 60)"
    by auto
  have run: "run_ticks (replicate 6060 (1 / 60, no_keys) @ replicate 6060 (1 / 60, no_keys)) lone_session
               = Inr g2"
    by (simp only: run_ticks_append r1 r2 sum.case)
  have "health (player g2) < 0" using h1 h2 by (simp add: MAX_HEALTH_def)
  then show ?thesis unfolding run by (simp add: h0)
qed

subsection \<open>The stamina cost of moving\<close>

lemma moving_right: "moving right_only" "moving sprint_right" "\<not> moving sprint_only"
  by (simp_all add: moving_iff right_only_def sprint_right_def sprint_only_def no_keys_def)

lemma update_entities_stamina:
  "update_entities dt wd es p ps r = Inr (es1, p1, ps1, r1) \<Longrightarrow> stamina p1 = stamina p"
proof (induction es arbitrary: p ps r es1)
  case Nil
  then show ?case by simp
next
  case (Cons e es)
  from Cons.prems obtain e1 r0 where eu: "entity_update dt wd p e r = Inr (e1, r0)"
    by (auto split: sum.splits)
  define p0 where "p0 = (if hypot (ent_x e1 - player_x p) (ent_y e1 - player_y p) < 20
                         then p\<lparr>health := health p - 5 * dt\<rparr> else p)"
  define ps0 where "ps0 = (if hypot (ent_x e1 - player_x p) (ent_y e1 - player_y p) < 20 \<and> health p0 \<le> 0
                           then True else ps)"
  from Cons.prems obtain es2 where rest: "update_entities dt wd es p0 ps0 r0 = Inr (es2, p1, ps1, r1)"
    by (auto simp add: eu Let_def p0_def ps0_def split: sum.splits)
  have "stamina p0 = stamina p" by (simp add: p0_def)
  with Cons.IH [OF rest] show ?case by simp
qed

lemma decay_stamina:
  "stamina (decay dt p) =
     (if stamina p < MAX_STAMINA then min MAX_STAMINA (stamina p + dt * 5) else stamina p)"
  by (simp add: decay_def Let_def)

lemma update_stamina:
  assumes "update dt ks g = Inr g1"
  shows "stamina (player g1) =
           (if stamina (update_player dt ks (world g) (player g)) < MAX_STAMINA
            then min MAX_STAMINA (stamina (update_player dt ks (world g) (player g)) + dt * 5)
            else stamina (update_player dt ks (world g) (player g)))"
proof -
  from assms obtain es p2 ps r2 where
    ue: "update_entities dt (world g) (entities g) (update_player dt ks (world g) (player g))
           (paused g) (snd (weather_step (weather g) (rng g))) = Inr (es, p2, ps, r2)"
    and pl: "player g1 = decay dt p2"
    by (auto elim!: update_Inr)
  from update_entities_stamina [OF ue] show ?thesis by (simp add: pl decay_stamina)
qed

text \<open>
  C6, as the code has it. The movement step of a tick, \<^verbatim>\<open>update_player\<close>, charges stamina as
  follows. When the player moves, stamina drops by 7 per second of elapsed time, and by a
  further 10 per second (17 in all) when the sprint branch is taken (shift held with stamina
  above 1), never below 0; the step is the normalised intent times 160, or times 160 * 1.8
  when sprinting, times the elapsed time, clamped to the world. Shift held with stamina at
  most 1 gives exactly the step without shift. When the player does not move and the sprint
  branch is not taken, the step leaves stamina as it was. That is the charge before the
  regeneration: later in the same tick \<^verbatim>\<open>Game.update\<close> adds 5 per second, up to
  \<open>MAX_STAMINA\<close>, whenever the stamina the step left is below \<open>MAX_STAMINA\<close>, moving or not, and
  the tick ends with that sum.
\<close>

theorem update_player_stamina_cost:
  "(moving ks \<longrightarrow>
      stamina (update_player dt ks (world g) (player g)) =
        max 0 (stamina (player g) - (if sprinting ks (player g) then dt * 10 else 0) - dt * 7) \<and>
      player_x (update_player dt ks (world g) (player g)) =
        clamp (player_x (player g) + (intent_x ks / hypot (intent_x ks) (intent_y ks)) *
                 (if sprinting ks (player g) then 160 * 1.8 else 160) * dt)
              0 (real_of_int (world_w (world g) * TILE_SIZE - 1)) \<and>
      player_y (update_player dt ks (world g) (player g)) =
        clamp (player_y (player g) + (intent_y ks / hypot (intent_x ks) (intent_y ks)) *
                 (if sprinting ks (player g) then 160 * 1.8 else 160) * dt)
              0 (real_of_int (world_h (world g) * TILE_SIZE - 1))) \<and>
   (K_LSHIFT ks \<and> stamina (player g) \<le> 1 \<longrightarrow>
      update_player dt ks (world g) (player g) =
        update_player dt (ks\<lparr>K_LSHIFT := False\<rparr>) (world g) (player g)) \<and>
   (\<not> moving ks \<and> \<not> sprinting ks (player g) \<longrightarrow>
      stamina (update_player dt ks (world g) (player g)) = stamina (player g)) \<and>
   (\<forall>g1. update dt ks g = Inr g1 \<longrightarrow>
      stamina (player g1) =
        (if stamina (update_player dt ks (world g) (player g)) < MAX_STAMINA
         then min MAX_STAMINA (stamina (update_player dt ks (world g) (player g)) + dt * 5)
         else stamina (update_player dt ks (world g) (player g))))"
proof (intro conjI impI allI)
  assume m: "moving ks"
  show "stamina (update_player dt ks (world g) (player g)) =
          max 0 (stamina (player g) - (if sprinting ks (player g) then dt * 10 else 0) - dt * 7)"
    using m by (simp add: update_player_unfold Let_def)
  show "player_x (update_player dt ks (world g) (player g)) =
        clamp (player_x (player g) + (intent_x ks / hypot (intent_x ks) (intent_y ks)) *
                 (if sprinting ks (player g) then 160 * 1.8 else 160) * dt)
              0 (real_of_int (world_w (world g) * TILE_SIZE - 1))"
    using m by (simp add: update_player_unfold Let_def)
  show "player_y (update_player dt ks (world g) (player g)) =
        clamp (player_y (player g) + (intent_y ks / hypot (intent_x ks) (intent_y ks)) *
                 (if sprinting ks (player g) then 160 * 1.8 else 160) * dt)
              0 (real_of_int (world_h (world g) * TILE_SIZE - 1))"
    using m by (simp add: update_player_unfold Let_def)
next
  assume "K_LSHIFT ks \<and> stamina (player g) \<le> 1"
  then show "update_player dt ks (world g) (player g) =
               update_player dt (ks\<lparr>K_LSHIFT := False\<rparr>) (world g) (player g)"
    by (simp add: update_player_def Let_def)
next
  assume "\<not> moving ks \<and> \<not> sprinting ks (player g)"
  then show "stamina (update_player dt ks (world g) (player g)) = stamina (player g)"
    by (simp add: update_player_unfold Let_def)
next
  fix g1 assume "update dt ks g = Inr g1"
  then show "stamina (player g1) =
        (if stamina (update_player dt ks (world g) (player g)) < MAX_STAMINA
         then min MAX_STAMINA (stamina (update_player dt ks (world g) (player g)) + dt * 5)
         else stamina (update_player dt ks (world g) (player g)))"
    by (rule update_stamina)
qed

text \<open>
  The theorem at a tenth of a second. A rested player (stamina 100) who walks right is
  charged 0.7 by the step and ends the tick at 99.8; standing still without shift costs
  nothing; with stamina 1, shift changes nothing.
\<close>

theorem update_player_stamina_cost_witness:
  "moving right_only \<and> \<not> sprinting right_only (player lone_session) \<and>
   stamina (update_player (1 / 10) right_only (world lone_session) (player lone_session)) =
     100 - 7 * (1 / 10) \<and>
   \<not> isl (update (1 / 10) right_only lone_session) \<and>
   stamina (player (projr (update (1 / 10) right_only lone_session))) = 100 - 2 * (1 / 10) \<and>
   \<not> moving no_keys \<and> \<not> sprinting no_keys (player lone_session) \<and>
   stamina (update_player (1 / 10) no_keys (world lone_session) (player lone_session)) = 100 \<and>
   K_LSHIFT sprint_right \<and> stamina (player (session tree_world ((Player0 0 0)\<lparr>stamina := 1\<rparr>))) \<le> 1 \<and>
   update_player (1 / 10) sprint_right tree_world ((Player0 0 0)\<lparr>stamina := 1\<rparr>) =
     update_player (1 / 10) (sprint_right\<lparr>K_LSHIFT := False\<rparr>) tree_world ((Player0 0 0)\<lparr>stamina := 1\<rparr>)"
proof -
  let ?tired = "session tree_world ((Player0 0 0)\<lparr>stamina := 1\<rparr>)"
  have pl: "player lone_session = Player0 0 0" "world lone_session = tree_world"
    by (simp_all add: lone_session_def)
  have m1: "moving right_only" by (rule moving_right)
  have s1: "\<not> sprinting right_only (player lone_session)"
    by (simp add: sprinting_def right_only_def no_keys_def)
  have m2: "\<not> moving no_keys" by (simp add: moving_iff no_keys_def)
  have s2: "\<not> sprinting no_keys (player lone_session)" by (simp add: sprinting_def no_keys_def)
  have k3: "K_LSHIFT sprint_right \<and> stamina (player ?tired) \<le> 1"
    by (simp add: sprint_right_def no_keys_def)
  have st: "stamina (player lone_session) = 100" by (simp add: pl Player0_def MAX_STAMINA_def)
  have e: "entities lone_session = []" by (simp add: lone_session_def)
  from update_no_entities [OF e, of "1 / 10" right_only] obtain g1 where
    u: "update (1 / 10) right_only lone_session = Inr g1" by blast
  note T = update_player_stamina_cost [of right_only "1 / 10" lone_session]
  from T m1 s1
  have a: "stamina (update_player (1 / 10) right_only (world lone_session) (player lone_session)) =
             100 - 7 * (1 / 10)"
    by (simp add: st)
  from T u have "stamina (player g1) =
        (if stamina (update_player (1 / 10) right_only (world lone_session) (player lone_session)) < MAX_STAMINA
         then min MAX_STAMINA
                (stamina (update_player (1 / 10) right_only (world lone_session) (player lone_session))
                   + 1 / 10 * 5)
         else stamina (update_player (1 / 10) right_only (world lone_session) (player lone_session)))"
    by blast
  then have t: "stamina (player g1) = 100 - 2 * (1 / 10)"
    by (simp add: a MAX_STAMINA_def)
  from update_player_stamina_cost [of no_keys "1 / 10" lone_session] m2 s2
  have b: "stamina (update_player (1 / 10) no_keys (world lone_session) (player lone_session)) = 100"
    by (simp add: st)
  from update_player_stamina_cost [of sprint_right "1 / 10" ?tired] k3
  have c: "update_player (1 / 10) sprint_right tree_world ((Player0 0 0)\<lparr>stamina := 1\<rparr>) =
     update_player (1 / 10) (sprint_right\<lparr>K_LSHIFT := False\<rparr>) tree_world ((Player0 0 0)\<lparr>stamina := 1\<rparr>)"
    by simp
  have ut: "\<not> isl (update (1 / 10) right_only lone_session) \<and>
            stamina (player (projr (update (1 / 10) right_only lone_session))) = 100 - 2 * (1 / 10)"
    unfolding u using t by simp
  from m1 s1 a ut m2 s2 b k3 c show ?thesis by simp
qed

text \<open>
  The claim as written charges a sprinting move 10 per second. A rested player who sprints
  to the right for a tenth of a second is charged 1.7 stamina by the movement step, 17 per
  second: the 10 of the sprint branch and the 7 of the movement branch add up.
\<close>

theorem sprint_costs_seventeen_counterexample:
  "moving sprint_right \<and> sprinting sprint_right (Player0 0 0) \<and>
   stamina (Player0 0 0) - stamina (update_player (1 / 10) sprint_right tree_world (Player0 0 0)) =
     17 * (1 / 10)"
proof -
  have s: "sprinting sprint_right (Player0 0 0)"
    by (simp add: sprinting_def sprint_right_def no_keys_def Player0_def MAX_STAMINA_def)
  have "stamina (update_player (1 / 10) sprint_right tree_world (Player0 0 0)) = 100 - 17 / 10"
    using s moving_right(2)
    by (simp add: update_player_unfold Let_def) (simp add: Player0_def MAX_STAMINA_def)
  then show ?thesis using s moving_right(2) by (simp add: Player0_def MAX_STAMINA_def)
qed

text \<open>
  The sprint branch does not look at the movement keys: shift held while standing still
  costs 10 per second.
\<close>

lemma standing_sprint_drains:
  "\<not> moving sprint_only \<and>
   stamina (Player0 0 0) - stamina (update_player (1 / 10) sprint_only tree_world (Player0 0 0)) = 1"
proof -
  have s: "sprinting sprint_only (Player0 0 0)"
    by (simp add: sprinting_def sprint_only_def no_keys_def Player0_def MAX_STAMINA_def)
  show ?thesis
    using s moving_right(3) by (simp add: update_player_unfold Let_def)
qed

text \<open>
  Over the whole tick the regeneration is part of the balance: the rested player who sprints
  to the right for a tenth of a second ends the tick 1.2 below where it started.
\<close>

lemma sprinting_tick_costs_twelve:
  "\<not> isl (update (1 / 10) sprint_right lone_session) \<and>
   stamina (player lone_session) - stamina (player (projr (update (1 / 10) sprint_right lone_session)))
     = 12 * (1 / 10)"
proof -
  have e: "entities lone_session = []" by (simp add: lone_session_def)
  have pl: "player lone_session = Player0 0 0" "world lone_session = tree_world"
    by (simp_all add: lone_session_def)
  from update_no_entities [OF e, of "1 / 10" sprint_right] obtain g1 where
    u: "update (1 / 10) sprint_right lone_session = Inr g1" by blast
  have s: "sprinting sprint_right (Player0 0 0)"
    by (simp add: sprinting_def sprint_right_def no_keys_def Player0_def MAX_STAMINA_def)
  have up: "stamina (update_player (1 / 10) sprint_right tree_world (Player0 0 0)) = 100 - 17 / 10"
    using s moving_right(2)
    by (simp add: update_player_unfold Let_def) (simp add: Player0_def MAX_STAMINA_def)
  from update_stamina [OF u] have "stamina (player g1) = 100 - 12 / 10"
    by (simp add: pl up MAX_STAMINA_def)
  then show ?thesis unfolding u by (simp add: pl Player0_def MAX_STAMINA_def)
qed

subsection \<open>Saving and loading\<close>

lemma andThen_Inr [simp]: "andThen (Inr v) f = f v"
  by (simp add: andThen_def)

lemma andThen_Inl [simp]: "andThen (Inl err) f = Inl err"
  by (simp add: andThen_def)

lemma mapM_map:
  "(\<And>v. v \<in> set vs \<Longrightarrow> f v = Inr (h v)) \<Longrightarrow> mapM f vs = Inr (map h vs)"
  by (induction vs) simp_all

lemma as_opt_str_json [simp]: "as_opt_str (opt_str_json v) = Inr v"
  by (cases v) (simp_all add: as_opt_str_def opt_str_json_def)

lemma cell_roundtrip: "cell_from_dict (cell_to_dict t) = Inr t"
  by (simp add: cell_from_dict_def cell_to_dict_def getitem_def as_str_def as_int_def)

lemma world_ok_lengths:
  assumes "world_ok wd"
  shows "length (tiles wd) = nat (world_w wd)"
    and "i < length (tiles wd) \<Longrightarrow> length (tiles wd ! i) = nat (world_h wd)"
  using assms by (auto simp add: world_ok_def list_all_length)

lemma world_to_dict_ok:
  assumes ok: "world_ok wd"
  shows "world_to_dict wd =
           Inr (JDict [(''w'', JInt (world_w wd)), (''h'', JInt (world_h wd)),
                       (''tiles'', tiles_json wd)])"
proof -
  have col: "mapM (\<lambda>j. andThen (tile_at wd i j) (\<lambda>t. Inr (cell_to_dict t))) [0 ..< nat (world_h wd)] =
               Inr (map cell_to_dict (tiles wd ! i))"
    if i: "i < length (tiles wd)" for i
  proof -
    have len: "length (tiles wd ! i) = nat (world_h wd)" using ok i by (rule world_ok_lengths)
    have "mapM (\<lambda>j. andThen (tile_at wd i j) (\<lambda>t. Inr (cell_to_dict t))) [0 ..< nat (world_h wd)] =
            Inr (map (\<lambda>j. cell_to_dict (tiles wd ! i ! j)) [0 ..< nat (world_h wd)])"
      by (rule mapM_map) (simp add: tile_at_def i len)
    also have "map (\<lambda>j. cell_to_dict (tiles wd ! i ! j)) [0 ..< nat (world_h wd)] =
                 map cell_to_dict (map (\<lambda>j. tiles wd ! i ! j) [0 ..< length (tiles wd ! i)])"
      by (simp add: len)
    also have "\<dots> = map cell_to_dict (tiles wd ! i)"
      by (simp only: map_nth)
    finally show ?thesis .
  qed
  have "mapM (\<lambda>i. andThen
                 (mapM (\<lambda>j. andThen (tile_at wd i j) (\<lambda>t. Inr (cell_to_dict t)))
                    [0 ..< nat (world_h wd)])
                 (\<lambda>col. Inr (JList col)))
          [0 ..< nat (world_w wd)] =
        Inr (map (\<lambda>i. JList (map cell_to_dict (tiles wd ! i))) [0 ..< nat (world_w wd)])"
    by (rule mapM_map) (simp add: col world_ok_lengths(1) [OF ok])
  also have "map (\<lambda>i. JList (map cell_to_dict (tiles wd ! i))) [0 ..< nat (world_w wd)] =
               map (\<lambda>col. JList (map cell_to_dict col))
                 (map (\<lambda>i. tiles wd ! i) [0 ..< length (tiles wd)])"
    by (simp add: world_ok_lengths(1) [OF ok])
  also have "\<dots> = map (\<lambda>col. JList (map cell_to_dict col)) (tiles wd)"
    by (simp only: map_nth)
  finally show ?thesis by (simp add: world_to_dict_def tiles_json_def)
qed


lemma world_from_dict_ok:
  assumes ok: "world_ok wd"
  shows "world_from_dict sd (JDict [(''w'', JInt (world_w wd)), (''h'', JInt (world_h wd)),
                                     (''tiles'', tiles_json wd)]) r =
           (Inr wd, sd (world_w wd) (world_h wd))"
proof -
  let ?data = "JDict [(''w'', JInt (world_w wd)), (''h'', JInt (world_h wd)), (''tiles'', tiles_json wd)]"
  have cell: "andThen (getitem ?data ''tiles'') (\<lambda>tl. andThen (index tl i) (\<lambda>col.
                andThen (index col j) cell_from_dict)) = Inr (tiles wd ! i ! j)"
    if i: "i < length (tiles wd)" and j: "j < nat (world_h wd)" for i j
  proof -
    have len: "length (tiles wd ! i) = nat (world_h wd)" using ok i by (rule world_ok_lengths)
    show ?thesis
      using i j by (simp add: getitem_def tiles_json_def index_def len cell_roundtrip)
  qed
  have col: "mapM (\<lambda>j. andThen (getitem ?data ''tiles'') (\<lambda>tl. andThen (index tl i) (\<lambda>col.
                andThen (index col j) cell_from_dict))) [0 ..< nat (world_h wd)] = Inr (tiles wd ! i)"
    if i: "i < length (tiles wd)" for i
  proof -
    have len: "length (tiles wd ! i) = nat (world_h wd)" using ok i by (rule world_ok_lengths)
    have "mapM (\<lambda>j. andThen (getitem ?data ''tiles'') (\<lambda>tl. andThen (index tl i) (\<lambda>col.
                andThen (index col j) cell_from_dict))) [0 ..< nat (world_h wd)] =
          Inr (map (\<lambda>j. tiles wd ! i ! j) [0 ..< nat (world_h wd)])"
      by (rule mapM_map) (simp add: cell i)
    also have "map (\<lambda>j. tiles wd ! i ! j) [0 ..< nat (world_h wd)] = tiles wd ! i"
      by (simp add: len [symmetric] map_nth)
    finally show ?thesis .
  qed
  have "mapM (\<lambda>i. mapM (\<lambda>j. andThen (getitem ?data ''tiles'') (\<lambda>tl. andThen (index tl i) (\<lambda>col.
                andThen (index col j) cell_from_dict))) [0 ..< nat (world_h wd)])
          [0 ..< nat (world_w wd)] = Inr (map (\<lambda>i. tiles wd ! i) [0 ..< nat (world_w wd)])"
    by (rule mapM_map) (simp add: col world_ok_lengths(1) [OF ok])
  also have "map (\<lambda>i. tiles wd ! i) [0 ..< nat (world_w wd)] = tiles wd"
    by (simp add: world_ok_lengths(1) [OF ok, symmetric] map_nth)
  finally have cols: "mapM (\<lambda>i. mapM (\<lambda>j. andThen (getitem ?data ''tiles'') (\<lambda>tl.
                andThen (index tl i) (\<lambda>col. andThen (index col j) cell_from_dict)))
                  [0 ..< nat (world_h wd)]) [0 ..< nat (world_w wd)] = Inr (tiles wd)" .
  have hd: "andThen (getitem ?data ''w'') (\<lambda>wj. andThen (getitem ?data ''h'') (\<lambda>hj.
              andThen (as_range wj) (\<lambda>wi. andThen (as_range hj) (\<lambda>hi. Inr (wi, hi))))) =
            Inr (world_w wd, world_h wd)"
    by (simp add: getitem_def as_range_def)
  show ?thesis
    by (simp only: world_from_dict_def hd sum.case prod.case cols andThen_Inr) simp
qed

lemma item_roundtrip: "item_from_dict (item_to_dict it) = Inr (item_id it, it)"
  by (simp add: item_from_dict_def item_to_dict_def getitem_def as_str_def as_int_def)

lemma fold_update_fresh:
  assumes "distinct (map fst (acc @ kvs))"
  shows "fold (\<lambda>kv a. AList.update (fst kv) (snd kv) a) kvs acc = acc @ kvs"
  using assms
proof (induction kvs arbitrary: acc)
  case Nil
  then show ?case by simp
next
  case (Cons kv kvs)
  from Cons.prems have "fst kv \<notin> fst ` set acc" by auto
  then have "map_of acc (fst kv) = None" by (simp add: map_of_eq_None_iff)
  then have u: "AList.update (fst kv) (snd kv) acc = acc @ [kv]"
    by (simp add: update_absent)
  from Cons.prems have "distinct (map fst ((acc @ [kv]) @ kvs))" by simp
  from Cons.IH [OF this] show ?case by (simp add: u)
qed

lemma mapM_of_map:
  "(\<And>v. v \<in> set vs \<Longrightarrow> f (c v) = Inr (h v)) \<Longrightarrow> mapM f (map c vs) = Inr (map h vs)"
  by (induction vs) simp_all

lemma inventory_roundtrip:
  assumes "inventory_ok iv"
  shows "from_list (to_list iv) = Inr (Inventory0\<lparr>items := items iv\<rparr>)"
proof -
  from assms have d: "distinct (map fst (items iv))"
    and k: "\<And>kv. kv \<in> set (items iv) \<Longrightarrow> item_id (snd kv) = fst kv"
    by (auto simp add: inventory_ok_def list_all_iff)
  have "mapM item_from_dict (map (\<lambda>kv. item_to_dict (snd kv)) (items iv)) =
          Inr (map (\<lambda>kv. kv) (items iv))"
    by (rule mapM_of_map) (simp add: item_roundtrip k prod_eq_iff)
  then have m: "mapM item_from_dict (map (\<lambda>kv. item_to_dict (snd kv)) (items iv)) = Inr (items iv)"
    by simp
  have f: "fold (\<lambda>kv a. AList.update (fst kv) (snd kv) a) (items iv) [] = items iv"
    using fold_update_fresh [of "[]" "items iv"] d by simp
  show ?thesis
    by (simp add: from_list_def to_list_def iterate_def m f)
qed

lemma player_roundtrip:
  assumes "inventory_ok (inventory p)"
  shows "player_from_dict (player_to_dict p) = Inr (restored_player p)"
  by (simp add: player_from_dict_def player_to_dict_def getitem_def as_real_def
        inventory_roundtrip [OF assms] restored_player_def)

lemma entity_roundtrip: "entity_from_dict (entity_to_dict e) = Inr (Entity0 (ent_x e) (ent_y e))"
  by (simp add: entity_from_dict_def entity_to_dict_def getitem_def as_real_def)

lemma entity_health_roundtrip: "entity_health (entity_to_dict e) = Inr (ent_health e)"
  by (simp add: entity_health_def entity_to_dict_def dict_get_def as_real_def)

lemma load_healths_roundtrip:
  "load_healths (map (\<lambda>e. Entity0 (ent_x e) (ent_y e)) es) (map entity_to_dict es) =
     (None, map restored_entity es)"
  by (induction es) (simp_all add: entity_health_roundtrip restored_entity_def)

lemma load_entities_roundtrip:
  assumes "dict_get data ''entities'' (JList []) = Inr (JList (map entity_to_dict es))"
  shows "load_entities data g = (None, g\<lparr>entities := map restored_entity es\<rparr>)"
proof -
  have m: "mapM entity_from_dict (map entity_to_dict es) =
             Inr (map (\<lambda>e. Entity0 (ent_x e) (ent_y e)) es)"
    by (rule mapM_of_map) (simp add: entity_roundtrip)
  show ?thesis
    by (simp add: load_entities_def assms iterate_def m load_healths_roundtrip)
qed

lemma save_data_ok:
  assumes "world_ok (world g)"
  shows "save_data g =
     Inr (JDict [(''world'', JDict [(''w'', JInt (world_w (world g))), (''h'', JInt (world_h (world g))),
                                    (''tiles'', tiles_json (world g))]),
                 (''player'', player_to_dict (player g)),
                 (''time_of_day'', JFloat (time_of_day g)),
                 (''entities'', JList (map entity_to_dict (entities g)))])"
  by (simp add: save_data_def world_to_dict_ok [OF assms])

lemma load_data_roundtrip:
  assumes ok: "game_ok g" and sv: "save_data g = Inr data"
  shows "load_data sd data g0 =
     (None, g0\<lparr>rng := sd (world_w (world g)) (world_h (world g)), world := world g,
               player := restored_player (player g), time_of_day := time_of_day g,
               entities := map restored_entity (entities g)\<rparr>)"
proof -
  from ok have wok: "world_ok (world g)" and iok: "inventory_ok (inventory (player g))"
    by (simp_all add: game_ok_def)
  from sv save_data_ok [OF wok] have data:
    "data = JDict [(''world'', JDict [(''w'', JInt (world_w (world g))), (''h'', JInt (world_h (world g))),
                                      (''tiles'', tiles_json (world g))]),
                   (''player'', player_to_dict (player g)),
                   (''time_of_day'', JFloat (time_of_day g)),
                   (''entities'', JList (map entity_to_dict (entities g)))]"
    by simp
  have gw: "getitem data ''world'' = Inr (JDict [(''w'', JInt (world_w (world g))),
              (''h'', JInt (world_h (world g))), (''tiles'', tiles_json (world g))])"
    by (simp add: data getitem_def)
  have gp: "andThen (getitem data ''player'') player_from_dict = Inr (restored_player (player g))"
    by (simp add: data getitem_def player_roundtrip [OF iok])
  have gt: "andThen (dict_get data ''time_of_day'' (JFloat 0)) as_real = Inr (time_of_day g)"
    by (simp add: data dict_get_def as_real_def)
  have ge: "dict_get data ''entities'' (JList []) = Inr (JList (map entity_to_dict (entities g)))"
    by (simp add: data dict_get_def)
  show ?thesis
    by (simp only: load_data_def gw sum.case world_from_dict_ok [OF wok] prod.case gp gt Let_def
          load_entities_roundtrip [OF ge])
qed

text \<open>The round trip for a game of the expected shape.\<close>

lemma roundtrip_of_ok:
  assumes ok: "game_ok g"
  shows "\<exists>fs1. save fs filename g = Inr fs1 \<and>
           fst (load sd fs1 filename g0) = None \<and>
           restores g (snd (load sd fs1 filename g0))"
proof -
  from ok have wok: "world_ok (world g)" by (simp add: game_ok_def)
  from save_data_ok [OF wok] obtain data where sv: "save_data g = Inr data" by blast
  have s: "save fs filename g = Inr (fs(filename \<mapsto> Doc data))"
    by (simp add: save_def sv)
  have l: "load sd (fs(filename \<mapsto> Doc data)) filename g0 =
     (None, g0\<lparr>rng := sd (world_w (world g)) (world_h (world g)), world := world g,
               player := restored_player (player g), time_of_day := time_of_day g,
               entities := map restored_entity (entities g)\<rparr>)"
    by (simp add: load_def load_data_roundtrip [OF ok sv])
  have e: "ent_x \<circ> restored_entity = ent_x" "ent_y \<circ> restored_entity = ent_y"
          "ent_health \<circ> restored_entity = ent_health"
    by (simp_all add: fun_eq_iff restored_entity_def Entity0_def)
  have idle: "list_all (\<lambda>e. ent_vx e = 0 \<and> ent_vy e = 0 \<and> ent_state e = ''idle'')
                (map restored_entity (entities g))"
    by (simp add: list_all_iff restored_entity_def Entity0_def)
  have r: "restores g (g0\<lparr>rng := sd (world_w (world g)) (world_h (world g)), world := world g,
               player := restored_player (player g), time_of_day := time_of_day g,
               entities := map restored_entity (entities g)\<rparr>)"
    by (simp add: restores_def restored_player_def Player0_def Inventory0_def e idle)
  show ?thesis
    apply (rule exI [of _ "fs(filename \<mapsto> Doc data)"])
    apply (simp only: s l fst_conv snd_conv r)
    done
qed

text \<open>
  A load that cannot open the file, or whose file does not parse, leaves the session as it
  was, and \<^verbatim>\<open>__init__\<close> goes on with that session.
\<close>

lemma load_missing_or_corrupt:
  assumes "fs filename = None \<or> fs filename = Some Corrupt"
  shows "fst (load sd fs filename g) \<noteq> None \<and> snd (load sd fs filename g) = g \<and>
         init_load sd fs filename g = g"
  using assms by (auto simp add: load_def init_load_def)

text \<open>
  C5 at the input where the code departs from it: the file parses, holds a world and no
  player. \<^verbatim>\<open>load\<close> has assigned \<^verbatim>\<open>self.world\<close> when \<^verbatim>\<open>data['player']\<close> raises \<^verbatim>\<open>KeyError\<close>;
  \<^verbatim>\<open>__init__\<close> catches the exception and the session goes on with the world of the file and
  the player it had.
\<close>

theorem load_failure_keeps_loaded_world:
  "load some_seed [SAVE_FILE \<mapsto> Doc world_only] SAVE_FILE lone_session =
     (Some KeyError, lone_session\<lparr>rng := some_seed 1 1, world := camp_world\<rparr>) \<and>
   world lone_session = tree_world \<and> camp_world \<noteq> tree_world \<and>
   world (init_load some_seed [SAVE_FILE \<mapsto> Doc world_only] SAVE_FILE lone_session) = camp_world \<and>
   player (init_load some_seed [SAVE_FILE \<mapsto> Doc world_only] SAVE_FILE lone_session) =
     player lone_session"
proof -
  have wok: "world_ok camp_world" by (simp add: world_ok_def camp_world_def)
  have gw: "getitem world_only ''world'' =
              Inr (JDict [(''w'', JInt (world_w camp_world)), (''h'', JInt (world_h camp_world)),
                          (''tiles'', tiles_json camp_world)])"
    by (simp add: world_only_def getitem_def camp_world_def tiles_json_def)
  have gp: "andThen (getitem world_only ''player'') player_from_dict = Inl KeyError"
    by (simp add: world_only_def getitem_def)
  have wh: "world_w camp_world = 1" "world_h camp_world = 1" by (simp_all add: camp_world_def)
  have ld: "load_data some_seed world_only lone_session =
              (Some KeyError, lone_session\<lparr>rng := some_seed 1 1, world := camp_world\<rparr>)"
    by (simp only: load_data_def gw sum.case world_from_dict_ok [OF wok] prod.case gp Let_def)
       (simp add: wh)
  have l: "load some_seed [SAVE_FILE \<mapsto> Doc world_only] SAVE_FILE lone_session =
             (Some KeyError, lone_session\<lparr>rng := some_seed 1 1, world := camp_world\<rparr>)"
    by (simp add: load_def ld)
  have ne: "camp_world \<noteq> tree_world"
    by (simp add: camp_world_def tree_world_def camp_tile_def big_tree_def tile_consts)
  show ?thesis
    by (simp add: l ne init_load_def) (simp add: lone_session_def)
qed

subsection \<open>Every state of a session has the expected shape\<close>

lemma in_set_update:
  "kv \<in> set (AList.update k v al) \<Longrightarrow> kv = (k, v) \<or> kv \<in> set al"
  by (induction al) (auto split: if_splits)

lemma in_set_delete: "kv \<in> set (AList.delete k al) \<Longrightarrow> kv \<in> set al"
  by (simp add: AList.delete_eq)

lemma inventory_ok_update:
  assumes "inventory_ok iv" "item_id it = k"
  shows "inventory_ok (iv\<lparr>items := AList.update k it (items iv)\<rparr>)"
proof -
  from assms(1) have d: "distinct (map fst (items iv))"
    and a: "\<forall>kv \<in> set (items iv). item_id (snd kv) = fst kv"
    by (simp_all add: inventory_ok_def list_all_iff)
  have "item_id (snd kv) = fst kv" if "kv \<in> set (AList.update k it (items iv))" for kv
    using in_set_update [OF that] a assms(2) by auto
  then show ?thesis
    using d by (simp add: inventory_ok_def list_all_iff distinct_update)
qed

lemma inventory_ok_delete:
  assumes "inventory_ok iv"
  shows "inventory_ok (iv\<lparr>items := AList.delete k (items iv)\<rparr>)"
proof -
  from assms have d: "distinct (map fst (items iv))"
    and a: "\<forall>kv \<in> set (items iv). item_id (snd kv) = fst kv"
    by (simp_all add: inventory_ok_def list_all_iff)
  have "item_id (snd kv) = fst kv" if "kv \<in> set (AList.delete k (items iv))" for kv
    using in_set_delete [OF that] a by auto
  then show ?thesis
    using d by (simp add: inventory_ok_def list_all_iff distinct_delete)
qed

lemma inventory_ok_lookup:
  "inventory_ok iv \<Longrightarrow> map_of (items iv) k = Some it \<Longrightarrow> item_id it = k"
  by (auto simp add: inventory_ok_def list_all_iff dest: map_of_SomeD)

lemma inventory_ok_add: "inventory_ok iv \<Longrightarrow> inventory_ok (snd (add iv k nm n))"
  by (auto simp add: add_def inventory_ok_update inventory_ok_lookup split: option.splits)

lemma inventory_ok_remove: "inventory_ok iv \<Longrightarrow> inventory_ok (snd (remove iv k n))"
  by (auto simp add: remove_def Let_def inventory_ok_update inventory_ok_delete inventory_ok_lookup
           split: option.splits)

lemma inventory_ok_consume: "inventory_ok iv \<Longrightarrow> inventory_ok (consume req iv)"
  unfolding consume_def
  by (induction req arbitrary: iv) (auto simp add: inventory_ok_remove)

lemma inventory_ok_refund: "inventory_ok iv \<Longrightarrow> inventory_ok (refund req iv)"
  unfolding refund_def
  by (induction req arbitrary: iv) (auto simp add: inventory_ok_add)

lemma inventory_ok_empty: "inventory_ok Inventory0"
  by (simp add: inventory_ok_def Inventory0_def)

lemma world_ok_place_structure: "world_ok wd \<Longrightarrow> world_ok (snd (place_structure wd tx ty s))"
  by (simp add: place_structure_def world_ok_set_tile split: option.splits)

lemma game_ok_game_init: "world_ok wd \<Longrightarrow> game_ok (game_init wd es r)"
  by (simp add: game_ok_def game_init_def Let_def inventory_ok_add inventory_ok_empty Player0_def)

lemma game_ok_try_interact:
  assumes "game_ok g"
  shows "game_ok (try_interact g)"
proof -
  obtain tx ty where pt: "player_tile (player g) = (tx, ty)" by (cases "player_tile (player g)")
  from assms have w: "world_ok (world g)" and i: "inventory_ok (inventory (player g))"
    by (simp_all add: game_ok_def)
  have wh: "world_ok (snd (harvest (world g) tx ty 1))" using w by (rule world_ok_harvest)
  show ?thesis
    using w i wh
    by (auto simp add: try_interact_def pt game_ok_def Let_def inventory_ok_add
             split: option.splits prod.splits)
qed

lemma game_ok_craft_structure:
  assumes "world_ok (world g)" "inventory_ok iv1"
  shows "game_ok (snd (craft_structure g req iv1 s))"
proof -
  obtain tx ty where pt: "player_tile (player g) = (tx, ty)" by (cases "player_tile (player g)")
  have "world_ok (snd (place_structure (world g) tx ty s))"
    using assms(1) by (rule world_ok_place_structure)
  then show ?thesis
    using assms(2)
    by (auto simp add: craft_structure_def pt game_ok_def inventory_ok_refund split: prod.splits)
qed

lemma game_ok_craft:
  assumes "game_ok g"
  shows "game_ok (snd (craft g recipe_id))"
proof (cases "map_of RECIPES recipe_id")
  case None
  then show ?thesis using assms by (simp add: craft_def)
next
  case (Some rc)
  from assms have w: "world_ok (world g)" and i: "inventory_ok (inventory (player g))"
    by (simp_all add: game_ok_def)
  let ?iv1 = "consume (requires rc) (inventory (player g))"
  have i1: "inventory_ok ?iv1" using i by (rule inventory_ok_consume)
  have st: "game_ok (snd (craft_structure g (requires rc) ?iv1 s))" for s
    using w i1 by (rule game_ok_craft_structure)
  have it: "game_ok (g\<lparr>player := (player g)\<lparr>inventory := snd (add ?iv1 recipe_id (recipe_name rc) 1)\<rparr>\<rparr>)"
    using w i1 by (simp add: game_ok_def inventory_ok_add)
  show ?thesis
    using assms st it by (simp add: craft_def Some Let_def)
qed

lemma update_player_inventory [simp]:
  "inventory (update_player dt ks wd p) = inventory p"
  by (simp add: update_player_def Let_def)

lemma decay_inventory [simp]: "inventory (decay dt p) = inventory p"
  by (simp add: decay_def Let_def)

lemma update_entities_inventory:
  "update_entities dt wd es p ps r = Inr (es1, p1, ps1, r1) \<Longrightarrow> inventory p1 = inventory p"
proof (induction es arbitrary: p ps r es1)
  case Nil
  then show ?case by simp
next
  case (Cons e es)
  from Cons.prems obtain e1 r0 where eu: "entity_update dt wd p e r = Inr (e1, r0)"
    by (auto split: sum.splits)
  define p0 where "p0 = (if hypot (ent_x e1 - player_x p) (ent_y e1 - player_y p) < 20
                         then p\<lparr>health := health p - 5 * dt\<rparr> else p)"
  define ps0 where "ps0 = (if hypot (ent_x e1 - player_x p) (ent_y e1 - player_y p) < 20 \<and> health p0 \<le> 0
                           then True else ps)"
  from Cons.prems obtain es2 where rest: "update_entities dt wd es p0 ps0 r0 = Inr (es2, p1, ps1, r1)"
    by (auto simp add: eu Let_def p0_def ps0_def split: sum.splits)
  have "inventory p0 = inventory p" by (simp add: p0_def)
  with Cons.IH [OF rest] show ?case by simp
qed

lemma game_ok_update:
  assumes "game_ok g" "update dt ks g = Inr g1"
  shows "game_ok g1"
proof -
  from assms(2) obtain es p2 ps r2 where
    ue: "update_entities dt (world g) (entities g) (update_player dt ks (world g) (player g))
           (paused g) (snd (weather_step (weather g) (rng g))) = Inr (es, p2, ps, r2)"
    and w: "world g1 = world g" and pl: "player g1 = decay dt p2"
    by (auto elim!: update_Inr)
  from update_entities_inventory [OF ue] have "inventory p2 = inventory (player g)" by simp
  then show ?thesis using assms(1) by (simp add: game_ok_def w pl)
qed

lemma mapM_Inr:
  "mapM f vs = Inr us \<Longrightarrow> length us = length vs \<and> (\<forall>u \<in> set us. \<exists>v \<in> set vs. f v = Inr u)"
proof (induction vs arbitrary: us)
  case Nil
  then show ?case by simp
next
  case (Cons v vs)
  from Cons.prems obtain u us0 where fv: "f v = Inr u" and m: "mapM f vs = Inr us0"
    and us: "us = u # us0"
    by (auto simp add: andThen_def split: sum.splits)
  from Cons.IH [OF m] fv show ?case by (auto simp add: us)
qed

lemma world_from_dict_world_ok:
  assumes "world_from_dict sd data r = (Inr wd, r1)"
  shows "world_ok wd"
proof -
  from assms obtain wi hi cols where
    m: "mapM (\<lambda>i. mapM (\<lambda>j.
              andThen (getitem data ''tiles'') (\<lambda>tl.
              andThen (index tl i) (\<lambda>col.
              andThen (index col j) cell_from_dict)))
            [0 ..< nat hi]) [0 ..< nat wi] = Inr cols"
    and wd: "wd = \<lparr>world_w = wi, world_h = hi, tiles = cols\<rparr>"
    by (auto simp add: world_from_dict_def andThen_def split: sum.splits prod.splits)
  from mapM_Inr [OF m] have len: "length cols = nat wi"
    and each: "\<forall>col \<in> set cols. \<exists>i \<in> set [0 ..< nat wi].
                 mapM (\<lambda>j. andThen (getitem data ''tiles'') (\<lambda>tl.
                   andThen (index tl i) (\<lambda>col. andThen (index col j) cell_from_dict)))
                 [0 ..< nat hi] = Inr col"
    by simp_all
  have "length col = nat hi" if "col \<in> set cols" for col
  proof -
    from each that obtain i where
      "mapM (\<lambda>j. andThen (getitem data ''tiles'') (\<lambda>tl.
                   andThen (index tl i) (\<lambda>col. andThen (index col j) cell_from_dict)))
                 [0 ..< nat hi] = Inr col"
      by blast
    from mapM_Inr [OF this] show ?thesis by simp
  qed
  then show ?thesis using len by (auto simp add: world_ok_def wd list_all_iff)
qed

lemma fold_update_ok:
  assumes "distinct (map fst acc)" "\<forall>kv \<in> set acc. item_id (snd kv) = fst kv"
    "\<forall>kv \<in> set kvs. item_id (snd kv) = fst kv"
  shows "distinct (map fst (fold (\<lambda>kv a. AList.update (fst kv) (snd kv) a) kvs acc)) \<and>
         (\<forall>kv \<in> set (fold (\<lambda>kv a. AList.update (fst kv) (snd kv) a) kvs acc).
            item_id (snd kv) = fst kv)"
  using assms
proof (induction kvs arbitrary: acc)
  case Nil
  then show ?case by simp
next
  case (Cons kv kvs)
  have d: "distinct (map fst (AList.update (fst kv) (snd kv) acc))"
    using Cons.prems(1) by (simp add: distinct_update)
  have a: "\<forall>x \<in> set (AList.update (fst kv) (snd kv) acc). item_id (snd x) = fst x"
    using Cons.prems(2,3) in_set_update [of _ "fst kv" "snd kv" acc] by auto
  from Cons.prems(3) have r: "\<forall>x \<in> set kvs. item_id (snd x) = fst x" by simp
  from Cons.IH [OF d a r] show ?case by simp
qed

lemma item_from_dict_key: "item_from_dict i = Inr kv \<Longrightarrow> item_id (snd kv) = fst kv"
  by (auto simp add: item_from_dict_def andThen_def split: sum.splits)

lemma from_list_ok: "from_list lst = Inr iv \<Longrightarrow> inventory_ok iv"
proof -
  assume "from_list lst = Inr iv"
  then obtain vs kvs where m: "mapM item_from_dict vs = Inr kvs"
    and iv: "iv = Inventory0\<lparr>items := fold (\<lambda>kv a. AList.update (fst kv) (snd kv) a) kvs []\<rparr>"
    by (auto simp add: from_list_def andThen_def split: sum.splits)
  from mapM_Inr [OF m] item_from_dict_key have "\<forall>kv \<in> set kvs. item_id (snd kv) = fst kv"
    by blast
  from fold_update_ok [of "[]" kvs, OF _ _ this] show ?thesis
    by (simp add: iv inventory_ok_def list_all_iff)
qed

lemma player_from_dict_ok: "player_from_dict d = Inr p \<Longrightarrow> inventory_ok (inventory p)"
proof -
  assume a: "player_from_dict d = Inr p"
  then obtain iv where f: "andThen (getitem d ''inventory'') from_list = Inr iv"
    and p: "inventory p = iv"
    by (auto simp add: player_from_dict_def andThen_def split: sum.splits)
  from f obtain lst where "from_list lst = Inr iv"
    by (auto simp add: andThen_def split: sum.splits)
  then show ?thesis using p by (simp add: from_list_ok)
qed

lemma load_entities_keeps:
  "world (snd (load_entities data g)) = world g \<and> player (snd (load_entities data g)) = player g"
  by (auto simp add: load_entities_def split: sum.splits prod.splits)

lemma game_ok_load_data:
  assumes "game_ok g"
  shows "game_ok (snd (load_data sd data g))"
proof -
  from assms have w: "world_ok (world g)" and i: "inventory_ok (inventory (player g))"
    by (simp_all add: game_ok_def)
  show ?thesis
  proof (cases "getitem data ''world''")
    case (Inl err)
    then show ?thesis using assms by (simp add: load_data_def)
  next
    case (Inr wj)
    obtain res r1 where wf: "world_from_dict sd wj (rng g) = (res, r1)"
      by (cases "world_from_dict sd wj (rng g)")
    show ?thesis
    proof (cases res)
      case (Inl err)
      then show ?thesis using w i by (simp add: load_data_def Inr wf game_ok_def)
    next
      case wd: (Inr wd)
      from wf wd have wok: "world_ok wd" by (simp add: world_from_dict_world_ok)
      show ?thesis
      proof (cases "andThen (getitem data ''player'') player_from_dict")
        case (Inl err)
        then show ?thesis using wok i by (simp add: load_data_def Inr wf wd game_ok_def)
      next
        case p: (Inr p)
        then obtain dj where "player_from_dict dj = Inr p"
          by (auto simp add: andThen_def split: sum.splits)
        then have pok: "inventory_ok (inventory p)" by (rule player_from_dict_ok)
        show ?thesis
          using wok pok load_entities_keeps
          by (auto simp add: load_data_def Inr wf wd p game_ok_def Let_def split: sum.splits)
      qed
    qed
  qed
qed

lemma game_ok_init_load:
  assumes "game_ok g"
  shows "game_ok (init_load sd fs filename g)"
  using assms game_ok_load_data [OF assms]
  by (auto simp add: init_load_def load_def split: option.splits save_file.splits)

lemma reachable_game_ok: "reachable g \<Longrightarrow> game_ok g"
proof (induction rule: reachable.induct)
  case (start wd es r)
  then show ?case by (rule game_ok_game_init)
next
  case (start_loaded wd sd fs filename es r)
  then show ?case by (simp add: game_ok_init_load game_ok_game_init)
next
  case (interact g)
  then show ?case by (simp add: game_ok_try_interact)
next
  case (crafted g recipe_id)
  then show ?case by (simp add: game_ok_craft)
next
  case (tick g dt ks g1)
  then show ?case by (simp add: game_ok_update)
next
  case (pause g)
  then show ?case by (simp add: game_ok_def)
next
  case (heal g)
  then show ?case by (simp add: game_ok_def)
next
  case (build g tx ty)
  then show ?case by (simp add: game_ok_def world_ok_place_structure)
qed

text \<open>
  C4. For every state a session reaches, \<^verbatim>\<open>save\<close> succeeds, and a \<^verbatim>\<open>load\<close> of the file it
  wrote, into any session, raises nothing and leaves the saved world (dimensions and every
  tile), the saved position, health, hunger, thirst and stamina, the saved stacks of the
  inventory in their order, the saved equipped id and time of day, and one entity per saved
  entity with its position and health, zero velocity and state \<^verbatim>\<open>'idle'\<close>.
\<close>

theorem save_load_roundtrip:
  assumes "reachable g"
  shows "\<exists>fs1. save fs filename g = Inr fs1 \<and>
           fst (load sd fs1 filename g0) = None \<and>
           restores g (snd (load sd fs1 filename g0))"
  using assms by (intro roundtrip_of_ok reachable_game_ok)

text \<open>
  The theorem at \<open>started\<close>, saved to an empty directory and loaded into \<open>lone_session\<close>: the
  attacking creature comes back idle and at rest, at its place and with its health.
\<close>

theorem save_load_roundtrip_witness:
  "reachable started \<and>
   (\<exists>fs1. save Map.empty SAVE_FILE started = Inr fs1 \<and>
      fst (load some_seed fs1 SAVE_FILE lone_session) = None \<and>
      world (snd (load some_seed fs1 SAVE_FILE lone_session)) = small_world \<and>
      map fst (items (inventory (player (snd (load some_seed fs1 SAVE_FILE lone_session))))) =
        [''wood'', ''stone''] \<and>
      player_x (player (snd (load some_seed fs1 SAVE_FILE lone_session))) = 16 \<and>
      map ent_health (entities (snd (load some_seed fs1 SAVE_FILE lone_session))) = [35] \<and>
      list_all (\<lambda>e. ent_vx e = 0 \<and> ent_vy e = 0 \<and> ent_state e = ''idle'')
        (entities (snd (load some_seed fs1 SAVE_FILE lone_session))))"
proof (rule conjI)
  have wok: "world_ok small_world" by (simp add: world_ok_def small_world_def)
  show re: "reachable started"
    unfolding started_def using wok by (rule reachable.start)
  from save_load_roundtrip [OF re, of Map.empty SAVE_FILE some_seed lone_session]
  obtain fs1 where
    a: "save Map.empty SAVE_FILE started = Inr fs1"
    and b: "fst (load some_seed fs1 SAVE_FILE lone_session) = None"
    and c: "restores started (snd (load some_seed fs1 SAVE_FILE lone_session))"
    by blast
  from c have d:
    "world (snd (load some_seed fs1 SAVE_FILE lone_session)) = world started"
    "items (inventory (player (snd (load some_seed fs1 SAVE_FILE lone_session)))) =
       items (inventory (player started))"
    "player_x (player (snd (load some_seed fs1 SAVE_FILE lone_session))) = player_x (player started)"
    "map ent_health (entities (snd (load some_seed fs1 SAVE_FILE lone_session))) =
       map ent_health (entities started)"
    "list_all (\<lambda>e. ent_vx e = 0 \<and> ent_vy e = 0 \<and> ent_state e = ''idle'')
       (entities (snd (load some_seed fs1 SAVE_FILE lone_session)))"
    by (simp_all add: restores_def)
  have v: "world started = small_world"
    "map fst (items (inventory (player started))) = [''wood'', ''stone'']"
    "player_x (player started) = 16" "map ent_health (entities started) = [35]"
    by (simp_all add: started_def game_init_def Let_def Player0_def Inventory0_def add_def
          attacker_def small_world_def TILE_SIZE_def)
  show "\<exists>fs1. save Map.empty SAVE_FILE started = Inr fs1 \<and>
      fst (load some_seed fs1 SAVE_FILE lone_session) = None \<and>
      world (snd (load some_seed fs1 SAVE_FILE lone_session)) = small_world \<and>
      map fst (items (inventory (player (snd (load some_seed fs1 SAVE_FILE lone_session))))) =
        [''wood'', ''stone''] \<and>
      player_x (player (snd (load some_seed fs1 SAVE_FILE lone_session))) = 16 \<and>
      map ent_health (entities (snd (load some_seed fs1 SAVE_FILE lone_session))) = [35] \<and>
      list_all (\<lambda>e. ent_vx e = 0 \<and> ent_vy e = 0 \<and> ent_state e = ''idle'')
        (entities (snd (load some_seed fs1 SAVE_FILE lone_session)))"
    apply (rule exI [of _ fs1])
    apply (simp only: a b d v)
    done
qed

end
